theory Spec2Isabelle
  imports Complex_Main
begin

section \<open>JavaScript numbers\<close>

text \<open>
  The simulation computes with JavaScript numbers. They are modelled as exact reals
  extended with the two infinities and NaN: rounding and overflow of the 64-bit
  format are not modelled, and zero carries no sign (a zero divisor counts as +0;
  every divisor the modelled code can reach is a square root, an array length or a
  difference of array lengths, none of which is -0). Arithmetic follows IEEE 754 on
  these values: NaN is absorbing, 0/0 and \<open>\<infinity> - \<infinity>\<close> and \<open>0 * \<infinity>\<close> are NaN, x/0 is an
  infinity for nonzero x, and every comparison with NaN is false.
\<close>

datatype num = Fin real | PInf | NInf | NaN

instantiation num :: "{plus, uminus, minus, times, inverse, ord}"
begin

fun plus_num :: "num \<Rightarrow> num \<Rightarrow> num" where
  "plus_num (Fin a) (Fin b) = Fin (a + b)"
| "plus_num NaN _ = NaN"
| "plus_num _ NaN = NaN"
| "plus_num PInf NInf = NaN"
| "plus_num NInf PInf = NaN"
| "plus_num PInf _ = PInf"
| "plus_num _ PInf = PInf"
| "plus_num NInf _ = NInf"
| "plus_num _ NInf = NInf"

fun uminus_num :: "num \<Rightarrow> num" where
  "uminus_num (Fin a) = Fin (- a)"
| "uminus_num PInf = NInf"
| "uminus_num NInf = PInf"
| "uminus_num NaN = NaN"

definition minus_num :: "num \<Rightarrow> num \<Rightarrow> num" where
  "minus_num a b = a + (- b)"

fun times_num :: "num \<Rightarrow> num \<Rightarrow> num" where
  "times_num (Fin a) (Fin b) = Fin (a * b)"
| "times_num NaN _ = NaN"
| "times_num _ NaN = NaN"
| "times_num (Fin a) PInf = (if a = 0 then NaN else if 0 < a then PInf else NInf)"
| "times_num (Fin a) NInf = (if a = 0 then NaN else if 0 < a then NInf else PInf)"
| "times_num PInf (Fin b) = (if b = 0 then NaN else if 0 < b then PInf else NInf)"
| "times_num NInf (Fin b) = (if b = 0 then NaN else if 0 < b then NInf else PInf)"
| "times_num PInf PInf = PInf"
| "times_num NInf NInf = PInf"
| "times_num PInf NInf = NInf"
| "times_num NInf PInf = NInf"

fun divide_num :: "num \<Rightarrow> num \<Rightarrow> num" where
  "divide_num (Fin a) (Fin b) =
     (if b \<noteq> 0 then Fin (a / b)
      else if a = 0 then NaN
      else if 0 < a then PInf else NInf)"
| "divide_num NaN _ = NaN"
| "divide_num _ NaN = NaN"
| "divide_num (Fin a) PInf = Fin 0"
| "divide_num (Fin a) NInf = Fin 0"
| "divide_num PInf (Fin b) = (if 0 \<le> b then PInf else NInf)"
| "divide_num NInf (Fin b) = (if 0 \<le> b then NInf else PInf)"
| "divide_num PInf PInf = NaN"
| "divide_num PInf NInf = NaN"
| "divide_num NInf PInf = NaN"
| "divide_num NInf NInf = NaN"

definition inverse_num :: "num \<Rightarrow> num" where
  "inverse_num a = divide (Fin 1) a"

fun less_num :: "num \<Rightarrow> num \<Rightarrow> bool" where
  "less_num (Fin a) (Fin b) = (a < b)"
| "less_num NaN _ = False"
| "less_num _ NaN = False"
| "less_num _ NInf = False"
| "less_num PInf _ = False"
| "less_num NInf _ = True"
| "less_num _ PInf = True"

fun less_eq_num :: "num \<Rightarrow> num \<Rightarrow> bool" where
  "less_eq_num (Fin a) (Fin b) = (a \<le> b)"
| "less_eq_num NaN _ = False"
| "less_eq_num _ NaN = False"
| "less_eq_num NInf _ = True"
| "less_eq_num _ PInf = True"
| "less_eq_num _ NInf = False"
| "less_eq_num PInf _ = False"

instance ..

end

definition Math_PI :: num where
  "Math_PI = Fin pi"

fun Math_sqrt :: "num \<Rightarrow> num" where
  "Math_sqrt (Fin a) = (if 0 \<le> a then Fin (sqrt a) else NaN)"
| "Math_sqrt PInf = PInf"
| "Math_sqrt NInf = NaN"
| "Math_sqrt NaN = NaN"

fun Math_cos :: "num \<Rightarrow> num" where
  "Math_cos (Fin a) = Fin (cos a)"
| "Math_cos _ = NaN"

fun Math_sin :: "num \<Rightarrow> num" where
  "Math_sin (Fin a) = Fin (sin a)"
| "Math_sin _ = NaN"

fun Math_ceil :: "num \<Rightarrow> num" where
  "Math_ceil (Fin a) = Fin (of_int \<lceil>a\<rceil>)"
| "Math_ceil a = a"

text \<open>
  The exponentiation operator \<open>**\<close>, case by case as the language defines it (the cases
  for a base of -0 coincide with those for +0 here).
\<close>

definition is_odd_integer :: "real \<Rightarrow> bool" where
  "is_odd_integer e = (e = of_int \<lfloor>e\<rfloor> \<and> odd \<lfloor>e\<rfloor>)"

fun exponentiate :: "num \<Rightarrow> num \<Rightarrow> num" where
  "exponentiate _ NaN = NaN"
| "exponentiate b (Fin e) =
     (if e = 0 then Fin 1
      else case b of
        NaN \<Rightarrow> NaN
      | PInf \<Rightarrow> (if 0 < e then PInf else Fin 0)
      | NInf \<Rightarrow> (if 0 < e then (if is_odd_integer e then NInf else PInf) else Fin 0)
      | Fin a \<Rightarrow>
          (if a = 0 then (if 0 < e then Fin 0 else PInf)
           else if 0 < a then Fin (a powr e)
           else if e \<noteq> of_int \<lfloor>e\<rfloor> then NaN
           else if is_odd_integer e then Fin (- ((- a) powr e))
           else Fin ((- a) powr e)))"
| "exponentiate b PInf =
     (case b of
        NaN \<Rightarrow> NaN
      | PInf \<Rightarrow> PInf
      | NInf \<Rightarrow> PInf
      | Fin a \<Rightarrow> (if 1 < \<bar>a\<bar> then PInf else if \<bar>a\<bar> = 1 then NaN else Fin 0))"
| "exponentiate b NInf =
     (case b of
        NaN \<Rightarrow> NaN
      | PInf \<Rightarrow> Fin 0
      | NInf \<Rightarrow> Fin 0
      | Fin a \<Rightarrow> (if 1 < \<bar>a\<bar> then Fin 0 else if \<bar>a\<bar> = 1 then NaN else PInf))"

section \<open>Arrays, vectors and errors\<close>

text \<open>
  The exceptions the modelled code can raise: \<open>TypeError\<close> (a property of
  \<open>undefined\<close> is read or called) and \<open>RangeError\<close> (\<open>new Array\<close> with an invalid length).
\<close>

datatype error = TypeError | RangeError

text \<open>
  \<open>Vector2\<close> with its fields \<open>x\<close> and \<open>y\<close> (selectors \<open>vx\<close> and \<open>vy\<close>). The class itself is
  not among the sources; \<open>copy\<close> and \<open>set\<close> copy both fields, so vectors are values
  here. No two slots of the spine arrays hold the same object (\<open>initializeSpine\<close> stores
  fresh copies and nothing else assigns a slot), so nothing depends on aliasing.
\<close>

datatype Vector2 = Vector2 (vx: num) (vy: num)

text \<open>
  An array of objects is a list of slots; \<open>None\<close> is an empty slot, read as
  \<open>undefined\<close>, as is every index at or beyond the length. Writing beyond the length
  extends the array.
\<close>

definition arr_get :: "'a option list \<Rightarrow> nat \<Rightarrow> 'a option" where
  "arr_get xs i = (if i < length xs then xs ! i else None)"

definition arr_set :: "'a option list \<Rightarrow> nat \<Rightarrow> 'a \<Rightarrow> 'a option list" where
  "arr_set xs i v =
     (if i < length xs then xs[i := Some v]
      else xs @ replicate (i - length xs) None @ [Some v])"

text \<open>
  An array of numbers that its maker has filled completely is a list of numbers. A read
  out of range is \<open>undefined\<close> (\<open>None\<close>), which arithmetic converts to NaN.
\<close>

definition num_at :: "num list \<Rightarrow> nat \<Rightarrow> num option" where
  "num_at xs i = (if i < length xs then Some (xs ! i) else None)"

fun to_number :: "num option \<Rightarrow> num" where
  "to_number (Some a) = a"
| "to_number None = NaN"

text \<open>
  \<open>new Array(len)\<close>: the length has to be an integer from 0 to \<open>2^32 - 1\<close>; the result
  here is the validated length.
\<close>

definition new_Array :: "num \<Rightarrow> error + nat" where
  "new_Array len =
     (case len of
        Fin r \<Rightarrow>
          (if r = of_int \<lfloor>r\<rfloor> \<and> 0 \<le> r \<and> r < 2 ^ 32 then Inr (nat \<lfloor>r\<rfloor>)
           else Inl RangeError)
      | _ \<Rightarrow> Inl RangeError)"

text \<open>
  A counted loop whose body may throw: the first exception ends it. The bounds of the
  loops below are of the form \<open>i < this.spine.length\<close>; no pass of any of them changes the
  length of \<open>this.spine\<close>, so the list of indices is fixed when the loop starts.
\<close>

fun for_loop :: "('a \<Rightarrow> 's \<Rightarrow> error + 's) \<Rightarrow> 'a list \<Rightarrow> 's \<Rightarrow> error + 's" where
  "for_loop f [] s = Inr s"
| "for_loop f (a # as) s = (case f a s of Inl e \<Rightarrow> Inl e | Inr s' \<Rightarrow> for_loop f as s')"

section \<open>The fish body (body.js)\<close>

text \<open>The part of a \<open>Pattern\<close> the body reads: \<open>pattern.slot\<close> and \<open>pattern.size\<close>.\<close>

record pattern =
  slot :: Vector2
  sizeP :: Vector2

record body =
  pattern :: pattern
  spine :: "Vector2 option list"
  spinePrevious :: "Vector2 option list"
  spacing :: num
  inverseSpacing :: num
  radii :: "num list"
  springs :: "num list"
  u :: "num list"
  vCenter :: num
  vRadii :: "num list"
  phase :: num

definition RESOLUTION :: num where "RESOLUTION = Fin 0.14"
definition SPRING_START :: num where "SPRING_START = Fin 0.9"
definition SPRING_END :: num where "SPRING_END = Fin 0.3"
definition SPRING_POWER :: num where "SPRING_POWER = Fin 1.7"
definition SWIM_AMPLITUDE :: num where "SWIM_AMPLITUDE = Fin 8.5"
definition SWIM_SPEED :: num where "SWIM_SPEED = Fin 6.5"
definition SPEED_THRESHOLD :: num where "SPEED_THRESHOLD = Fin 0.02"

text \<open>
  The makers read \<open>this.spine.length\<close> and \<open>this.pattern\<close>; here they receive them as the
  arguments \<open>n\<close> and \<open>pat\<close>.
\<close>

definition makeU :: "pattern \<Rightarrow> nat \<Rightarrow> Vector2 \<Rightarrow> num list" where
  "makeU pat n atlasPixel =
     (let uStart = vx (slot pat) + vx atlasPixel;
          uEnd = vx (slot pat) + vx (sizeP pat) - vy atlasPixel
      in map (\<lambda>segment. uStart + (uEnd - uStart) * Fin (real segment) / (Fin (real n) - Fin 1))
           [0..<n])"

definition makeVRadii :: "pattern \<Rightarrow> nat \<Rightarrow> Vector2 \<Rightarrow> error + num list" where
  "makeVRadii pat n atlasPixel =
     (case new_Array (Fin (real n) - Fin 2) of
        Inl e \<Rightarrow> Inl e
      | Inr m \<Rightarrow> Inr (map (\<lambda>segment. vy (sizeP pat) * Fin 0.5 - vy atlasPixel) [1..<n - 1]))"

definition makeRadii :: "nat \<Rightarrow> num \<Rightarrow> num \<Rightarrow> num list" where
  "makeRadii n thickness pow = map (\<lambda>segment. thickness * Fin 0.5) [0..<n]"

definition makeSprings :: "nat \<Rightarrow> num \<Rightarrow> num \<Rightarrow> num \<Rightarrow> error + num list" where
  "makeSprings n start endS pow =
     (case new_Array (Fin (real n) - Fin 1) of
        Inl e \<Rightarrow> Inl e
      | Inr m \<Rightarrow>
          Inr (map (\<lambda>spring. start + (endS - start) *
                      exponentiate (Fin (real spring) / (Fin (real n) - Fin 2)) pow)
                 [0..<n - 1]))"

text \<open>
  The constructor. \<open>new Array(this.spine.length)\<close> cannot fail, its argument being the
  length of an array; the slots of both spine arrays start empty.
\<close>

definition Body :: "pattern \<Rightarrow> Vector2 \<Rightarrow> num \<Rightarrow> num \<Rightarrow> error + body" where
  "Body pat atlasPixel len thickness =
     (case new_Array (Math_ceil (len / RESOLUTION) + Fin 1) of
        Inl e \<Rightarrow> Inl e
      | Inr n \<Rightarrow>
          (let spacing0 = len / (Fin (real n) - Fin 1) in
           case makeSprings n SPRING_START SPRING_END SPRING_POWER of
             Inl e \<Rightarrow> Inl e
           | Inr springs0 \<Rightarrow>
               (case makeVRadii pat n atlasPixel of
                  Inl e \<Rightarrow> Inl e
                | Inr vRadii0 \<Rightarrow>
                    Inr \<lparr>pattern = pat,
                         spine = replicate n None,
                         spinePrevious = replicate n None,
                         spacing = spacing0,
                         inverseSpacing = Fin 1 / spacing0,
                         radii = makeRadii n thickness (Fin 0.6),
                         springs = springs0,
                         u = makeU pat n atlasPixel,
                         vCenter = vy (slot pat) + vy (sizeP pat) * Fin 0.5,
                         vRadii = vRadii0,
                         phase = Fin 0\<rparr>)))"

text \<open>
  \<open>initializeSpine\<close>; \<open>subtract\<close> and \<open>multiply\<close> of \<open>Vector2\<close> work on both fields.
\<close>

definition initializeSpine_segment :: "Vector2 \<Rightarrow> nat \<Rightarrow> body \<Rightarrow> error + body" where
  "initializeSpine_segment direction segment b =
     (case arr_get (spine b) (segment - 1) of
        None \<Rightarrow> Inl TypeError
      | Some p \<Rightarrow>
          (let v = Vector2 (vx p - vx direction * spacing b) (vy p - vy direction * spacing b)
           in Inr (b\<lparr>spine := arr_set (spine b) segment v,
                     spinePrevious := arr_set (spinePrevious b) segment v\<rparr>)))"

definition initializeSpine :: "body \<Rightarrow> Vector2 \<Rightarrow> Vector2 \<Rightarrow> error + body" where
  "initializeSpine b head direction =
     (let b0 = b\<lparr>spine := arr_set (spine b) 0 head,
                 spinePrevious := arr_set (spinePrevious b) 0 head\<rparr>
      in for_loop (initializeSpine_segment direction) [1..<length (spine b0)] b0)"

definition storePreviousState_segment :: "nat \<Rightarrow> body \<Rightarrow> error + body" where
  "storePreviousState_segment segment b =
     (case (arr_get (spinePrevious b) segment, arr_get (spine b) segment) of
        (Some p, Some s) \<Rightarrow> Inr (b\<lparr>spinePrevious := (spinePrevious b)[segment := Some s]\<rparr>)
      | _ \<Rightarrow> Inl TypeError)"

definition storePreviousState :: "body \<Rightarrow> error + body" where
  "storePreviousState b = for_loop storePreviousState_segment [0..<length (spine b)] b"

text \<open>
  One pass of the loop of \<open>update\<close>; the state is the body and the direction
  \<open>(xDir, yDir)\<close>:
  \<^verbatim>\<open>
    let dx = this.spine[segment].x - this.spine[segment - 1].x;
    let dy = this.spine[segment].y - this.spine[segment - 1].y;
    let distance = Math.sqrt(dx * dx + dy * dy);
    const dxc = this.spine[segment - 1].x + xDir * this.spacing - this.spine[segment].x;
    const dyc = this.spine[segment - 1].y + yDir * this.spacing - this.spine[segment].y;
    xDir = dx / distance;
    yDir = dy / distance;
    dx += dxc * this.springs[segment - 1];
    dy += dyc * this.springs[segment - 1];
    distance = Math.sqrt(dx * dx + dy * dy);
    this.spine[segment].set(this.spine[segment - 1]);
    this.spine[segment].x += this.spacing * dx / distance;
    this.spine[segment].y += this.spacing * dy / distance;
  \<close>
\<close>

definition update_segment :: "nat \<Rightarrow> body \<times> num \<times> num \<Rightarrow> error + body \<times> num \<times> num" where
  "update_segment segment st =
     (case st of (b, xDir, yDir) \<Rightarrow>
      (case (arr_get (spine b) segment, arr_get (spine b) (segment - 1)) of
         (Some s, Some p) \<Rightarrow>
           (let dx = vx s - vx p;
                dy = vy s - vy p;
                distance = Math_sqrt (dx * dx + dy * dy);
                dxc = vx p + xDir * spacing b - vx s;
                dyc = vy p + yDir * spacing b - vy s;
                xDir' = dx / distance;
                yDir' = dy / distance;
                dx' = dx + dxc * to_number (num_at (springs b) (segment - 1));
                dy' = dy + dyc * to_number (num_at (springs b) (segment - 1));
                distance' = Math_sqrt (dx' * dx' + dy' * dy');
                s' = Vector2 (vx p + spacing b * dx' / distance')
                             (vy p + spacing b * dy' / distance')
            in Inr (b\<lparr>spine := (spine b)[segment := Some s']\<rparr>, xDir', yDir'))
       | _ \<Rightarrow> Inl TypeError))"

text \<open>
  The last statement of \<open>update\<close>:
  \<^verbatim>\<open>
    if ((this.phase += this.SWIM_SPEED * speed) > Math.PI * 2)
        this.phase -= Math.PI * 2;
  \<close>
\<close>

definition update_phase :: "body \<Rightarrow> num \<Rightarrow> body" where
  "update_phase b speed =
     (let b' = b\<lparr>phase := phase b + SWIM_SPEED * speed\<rparr>
      in if phase b' > Math_PI * Fin 2 then b'\<lparr>phase := phase b' - Math_PI * Fin 2\<rparr> else b')"

text \<open>
  \<open>update(head, direction, speed)\<close> in two parts. \<open>update_begin\<close> is the statements
  before the loop: it stores the previous state, moves the head and computes the
  direction \<open>(xDir, yDir)\<close> the loop starts with. \<open>Vector2.angle\<close> is not among the
  sources: the function computing \<open>direction.angle()\<close> is the parameter \<open>angle\<close>.
\<close>

definition update_begin ::
  "(Vector2 \<Rightarrow> num) \<Rightarrow> body \<Rightarrow> Vector2 \<Rightarrow> Vector2 \<Rightarrow> num \<Rightarrow> error + body \<times> num \<times> num" where
  "update_begin angle b head direction speed =
     (case storePreviousState b of
        Inl e \<Rightarrow> Inl e
      | Inr b1 \<Rightarrow>
          (case arr_get (spine b1) 0 of
             None \<Rightarrow> Inl TypeError
           | Some _ \<Rightarrow>
               (let b2 = b1\<lparr>spine := (spine b1)[0 := Some head]\<rparr>;
                    speedFactor = speed - SPEED_THRESHOLD;
                    a = angle direction + Math_PI +
                          Math_cos (phase b2) * speedFactor * SWIM_AMPLITUDE
                in Inr (b2, Math_cos a, Math_sin a))))"

definition update :: "(Vector2 \<Rightarrow> num) \<Rightarrow> body \<Rightarrow> Vector2 \<Rightarrow> Vector2 \<Rightarrow> num \<Rightarrow> error + body" where
  "update angle b head direction speed =
     (case update_begin angle b head direction speed of
        Inl e \<Rightarrow> Inl e
      | Inr st \<Rightarrow>
          (case for_loop update_segment [1..<length (spine (fst st))] st of
             Inl e \<Rightarrow> Inl e
           | Inr (b3, xDir, yDir) \<Rightarrow> Inr (update_phase b3 speed)))"

text \<open>
  The two divisors of one pass of the loop, \<open>distance\<close> before and after the blend, and
  the divisors of a whole call in the order they are used. They only serve to state
  which calls divide by zero.
\<close>

definition segment_divisors :: "nat \<Rightarrow> body \<times> num \<times> num \<Rightarrow> num list" where
  "segment_divisors segment st =
     (case st of (b, xDir, yDir) \<Rightarrow>
      (case (arr_get (spine b) segment, arr_get (spine b) (segment - 1)) of
         (Some s, Some p) \<Rightarrow>
           (let dx = vx s - vx p;
                dy = vy s - vy p;
                distance = Math_sqrt (dx * dx + dy * dy);
                dxc = vx p + xDir * spacing b - vx s;
                dyc = vy p + yDir * spacing b - vy s;
                dx' = dx + dxc * to_number (num_at (springs b) (segment - 1));
                dy' = dy + dyc * to_number (num_at (springs b) (segment - 1));
                distance' = Math_sqrt (dx' * dx' + dy' * dy')
            in [distance, distance'])
       | _ \<Rightarrow> []))"

fun pass_divisors :: "nat list \<Rightarrow> body \<times> num \<times> num \<Rightarrow> num list" where
  "pass_divisors [] st = []"
| "pass_divisors (segment # segments) st =
     segment_divisors segment st @
     (case update_segment segment st of
        Inl e \<Rightarrow> []
      | Inr st' \<Rightarrow> pass_divisors segments st')"

definition update_divisors ::
  "(Vector2 \<Rightarrow> num) \<Rightarrow> body \<Rightarrow> Vector2 \<Rightarrow> Vector2 \<Rightarrow> num \<Rightarrow> num list" where
  "update_divisors angle b head direction speed =
     (case update_begin angle b head direction speed of
        Inl e \<Rightarrow> []
      | Inr st \<Rightarrow> pass_divisors [1..<length (spine (fst st))] st)"

text \<open>
  A finite number, and a slot that holds a point with finite coordinates. \<open>in_range\<close> is a
  finite number of magnitude at most \<open>10^300\<close>: the difference of two such numbers is below
  the largest number of the 64-bit format, so that subtracting them cannot overflow.
\<close>

fun is_finite :: "num \<Rightarrow> bool" where
  "is_finite (Fin r) = True"
| "is_finite _ = False"

definition finite_slot :: "Vector2 option \<Rightarrow> bool" where
  "finite_slot v = (case v of None \<Rightarrow> False | Some w \<Rightarrow> is_finite (vx w) \<and> is_finite (vy w))"

fun in_range :: "num \<Rightarrow> bool" where
  "in_range (Fin r) = (\<bar>r\<bar> \<le> 10 ^ 300)"
| "in_range _ = False"

definition bounded_slot :: "Vector2 option \<Rightarrow> bool" where
  "bounded_slot v = (case v of None \<Rightarrow> False | Some w \<Rightarrow> in_range (vx w) \<and> in_range (vy w))"

text \<open>
  A body whose spine is initialized: both arrays have the same positive length and no
  empty slot.
\<close>

definition initialized :: "body \<Rightarrow> bool" where
  "initialized b =
     (0 < length (spine b) \<and> length (spinePrevious b) = length (spine b) \<and>
      None \<notin> set (spine b) \<and> None \<notin> set (spinePrevious b))"

text \<open>
  The renderer is the sink of strip commands: its state is the list of commands it has
  received. \<open>u[segment]\<close> is passed on as it is read, possibly \<open>undefined\<close>. The variables
  \<open>dxStart\<close> and \<open>dyStart\<close> of \<open>render\<close> are written and never read; they are left out.
\<close>

datatype command =
  CutStrip num num "num option" num
| DrawStrip num num "num option" num

definition render_segment ::
  "body \<Rightarrow> num \<Rightarrow> nat \<Rightarrow> command list \<times> num \<times> num \<times> num \<times> num \<Rightarrow>
     error + command list \<times> num \<times> num \<times> num \<times> num" where
  "render_segment b time segment st =
     (case st of (renderer, xEnd, yEnd, dxEnd, dyEnd) \<Rightarrow>
      (case (arr_get (spinePrevious b) segment, arr_get (spine b) segment) of
         (Some p, Some s) \<Rightarrow>
           (let xStart = xEnd;
                yStart = yEnd;
                xEnd' = vx p + (vx s - vx p) * time;
                yEnd' = vy p + (vy s - vy p) * time;
                dxEnd' = xEnd' - xStart;
                dyEnd' = yEnd' - yStart;
                radius = to_number (num_at (radii b) segment);
                vRadius = to_number (num_at (vRadii b) (segment - 1))
            in Inr (renderer @
                    [DrawStrip (xEnd' - radius * dyEnd' * inverseSpacing b)
                               (yEnd' + radius * dxEnd' * inverseSpacing b)
                               (num_at (u b) segment)
                               (vCenter b - vRadius),
                     DrawStrip (xEnd' + radius * dyEnd' * inverseSpacing b)
                               (yEnd' - radius * dxEnd' * inverseSpacing b)
                               (num_at (u b) segment)
                               (vCenter b + vRadius)],
                    xEnd', yEnd', dxEnd', dyEnd'))
       | _ \<Rightarrow> Inl TypeError))"

text \<open>
  \<open>render(renderer, time)\<close> returns the body as the call leaves it and the renderer with
  the commands of this call appended.
\<close>

definition render :: "body \<Rightarrow> command list \<Rightarrow> num \<Rightarrow> error + body \<times> command list" where
  "render b renderer time =
     (case (arr_get (spinePrevious b) 0, arr_get (spine b) 0) of
        (Some p, Some s) \<Rightarrow>
          (let xEnd = vx p + (vx s - vx p) * time;
               yEnd = vy p + (vy s - vy p) * time;
               r1 = renderer @ [CutStrip xEnd yEnd (num_at (u b) 0) (vCenter b)]
           in case for_loop (render_segment b time) [1..<length (spine b)]
                     (r1, xEnd, yEnd, Fin 0, Fin 0) of
                Inl e \<Rightarrow> Inl e
              | Inr (r2, xEnd', yEnd', dxEnd', dyEnd') \<Rightarrow> Inr (b, r2))
      | _ \<Rightarrow> Inl TypeError)"

text \<open>
  The strip of one frame written out segment by segment, to compare \<open>render\<close> with:
  \<open>centerline\<close> is the point between the previous and the current position of segment
  \<open>i\<close> at the fraction \<open>time\<close>, and each segment after the head contributes two vertices
  beside its centerline point.
\<close>

definition centerline :: "body \<Rightarrow> num \<Rightarrow> nat \<Rightarrow> Vector2 option" where
  "centerline b time i =
     (case (arr_get (spinePrevious b) i, arr_get (spine b) i) of
        (Some p, Some s) \<Rightarrow>
          Some (Vector2 (vx p + (vx s - vx p) * time) (vy p + (vy s - vy p) * time))
      | _ \<Rightarrow> None)"

definition segment_commands :: "body \<Rightarrow> num \<Rightarrow> nat \<Rightarrow> command list" where
  "segment_commands b time i =
     (case (centerline b time i, centerline b time (i - 1)) of
        (Some e, Some s) \<Rightarrow>
          (let dxEnd = vx e - vx s;
               dyEnd = vy e - vy s;
               radius = to_number (num_at (radii b) i);
               vRadius = to_number (num_at (vRadii b) (i - 1))
           in [DrawStrip (vx e - radius * dyEnd * inverseSpacing b)
                         (vy e + radius * dxEnd * inverseSpacing b)
                         (num_at (u b) i)
                         (vCenter b - vRadius),
               DrawStrip (vx e + radius * dyEnd * inverseSpacing b)
                         (vy e - radius * dxEnd * inverseSpacing b)
                         (num_at (u b) i)
                         (vCenter b + vRadius)])
      | _ \<Rightarrow> [])"

definition strip_commands :: "body \<Rightarrow> num \<Rightarrow> command list" where
  "strip_commands b time =
     (case centerline b time 0 of
        Some c \<Rightarrow>
          CutStrip (vx c) (vy c) (num_at (u b) 0) (vCenter b) #
          concat (map (segment_commands b time) [1..<length (spine b)])
      | None \<Rightarrow> [])"

text \<open>A sequence of \<open>update\<close> and \<open>render\<close> calls on one body; an exception ends it.\<close>

datatype body_call = CallUpdate Vector2 Vector2 num | CallRender num

fun run_calls ::
  "(Vector2 \<Rightarrow> num) \<Rightarrow> body_call list \<Rightarrow> body \<times> command list \<Rightarrow> error + body \<times> command list" where
  "run_calls angle [] st = Inr st"
| "run_calls angle (CallUpdate head direction speed # cs) st =
     (case update angle (fst st) head direction speed of
        Inl e \<Rightarrow> Inl e
      | Inr b' \<Rightarrow> run_calls angle cs (b', snd st))"
| "run_calls angle (CallRender time # cs) st =
     (case render (fst st) (snd st) time of
        Inl e \<Rightarrow> Inl e
      | Inr st' \<Rightarrow> run_calls angle cs st')"

text \<open>
  The phase is a finite number from 0 to \<open>2\<pi>\<close>, both included; a sequence of calls whose
  updates each advance the phase by at most one full turn, \<open>0 \<le> SWIM_SPEED * speed \<le> 2\<pi>\<close>.
\<close>

definition phase_in_turn :: "body \<Rightarrow> bool" where
  "phase_in_turn b = (Fin 0 \<le> phase b \<and> phase b \<le> Math_PI * Fin 2)"

fun speed_within_turn :: "body_call \<Rightarrow> bool" where
  "speed_within_turn (CallUpdate head direction speed) =
     (Fin 0 \<le> speed \<and> SWIM_SPEED * speed \<le> Math_PI * Fin 2)"
| "speed_within_turn (CallRender time) = True"

section \<open>The pond (pond.js)\<close>

text \<open>
  \<open>Fish\<close>, the constraint, the atlas, the randomizer and the renderer are not among the
  sources. A fish is a reference of type \<open>'f\<close>; everything the calls on these objects
  can change (the fish themselves, the randomizer, the atlas, the renderer) is the world
  \<open>'w\<close>, and the methods the pond calls are the fields of \<open>fish_api\<close>. The pond's own
  array \<open>fishes\<close> is not part of the world: a fish holds no reference to its pond.
  \<open>getCapacity()\<close> returns an integer.
\<close>

record ('f, 'c, 'a, 'r, 'd, 'w) fish_api =
  getCapacity :: "'c \<Rightarrow> int"
  interact :: "'f \<Rightarrow> 'f \<Rightarrow> 'r \<Rightarrow> 'w \<Rightarrow> 'w"
  fish_update :: "'f \<Rightarrow> 'c \<Rightarrow> 'r \<Rightarrow> 'w \<Rightarrow> bool \<times> 'w"
  free :: "'f \<Rightarrow> 'a \<Rightarrow> 'w \<Rightarrow> 'w"
  constraint_render :: "'c \<Rightarrow> 'd \<Rightarrow> 'w \<Rightarrow> 'w"
  fish_render :: "'f \<Rightarrow> 'd \<Rightarrow> num \<Rightarrow> 'w \<Rightarrow> 'w"

record ('f, 'c) pond =
  constraint :: 'c
  capacity :: int
  fishes :: "'f list"


definition Pond :: "('f, 'c, 'a, 'r, 'd, 'w) fish_api \<Rightarrow> 'c \<Rightarrow> ('f, 'c) pond" where
  "Pond api c = \<lparr>constraint = c, capacity = getCapacity api c, fishes = []\<rparr>"

definition SPAWN_OVERHEAD :: int where
  "SPAWN_OVERHEAD = 2"

definition canSpawn :: "('f, 'c) pond \<Rightarrow> bool" where
  "canSpawn p = (int (length (fishes p)) < capacity p - SPAWN_OVERHEAD)"

definition canDrop :: "('f, 'c) pond \<Rightarrow> bool" where
  "canDrop p = (int (length (fishes p)) < capacity p)"

definition addFish :: "('f, 'c) pond \<Rightarrow> 'f \<Rightarrow> ('f, 'c) pond" where
  "addFish p fish = p\<lparr>fishes := fishes p @ [fish]\<rparr>"











text \<open>
  The examples use a body of length 0.28, which has three segments, headed along the
  positive x axis. \<open>example_angle\<close> is \<open>Math.atan2(y, x)\<close> on the half plane \<open>x > 0\<close>.
\<close>

definition example_pattern :: pattern where
  "example_pattern = \<lparr>slot = Vector2 (Fin 0) (Fin 0), sizeP = Vector2 (Fin 1) (Fin 1)\<rparr>"

definition example_pixel :: Vector2 where
  "example_pixel = Vector2 (Fin 0.125) (Fin 0.125)"

definition example_angle :: "Vector2 \<Rightarrow> num" where
  "example_angle v =
     (case (vx v, vy v) of
        (Fin a, Fin c) \<Rightarrow> (if 0 < a then Fin (arctan (c / a)) else NaN)
      | _ \<Rightarrow> NaN)"

definition example_body :: body where
  "example_body =
     \<lparr>pattern = example_pattern,
      spine = [Some (Vector2 (Fin 0) (Fin 0)), Some (Vector2 (Fin (- 0.14)) (Fin 0)),
               Some (Vector2 (Fin (- 0.28)) (Fin 0))],
      spinePrevious = [Some (Vector2 (Fin 0) (Fin 0)), Some (Vector2 (Fin (- 0.14)) (Fin 0)),
               Some (Vector2 (Fin (- 0.28)) (Fin 0))],
      spacing = Fin 0.14,
      inverseSpacing = Fin (50 / 7),
      radii = [Fin 0.05, Fin 0.05, Fin 0.05],
      springs = [Fin 0.9, Fin 0.3],
      u = [Fin 0.125, Fin 0.5, Fin 0.875],
      vCenter = Fin 0.5,
      vRadii = [Fin 0.375],
      phase = Fin 0\<rparr>"

text \<open>
  The example body after the head has moved forward to \<open>(0.07, 0)\<close>, and after the head
  has moved back onto segment 1, at \<open>(-0.14, 0)\<close>; both at speed 0.02.
\<close>

definition example_forward :: body where
  "example_forward = example_body
     \<lparr>spine := [Some (Vector2 (Fin 0.07) (Fin 0)), Some (Vector2 (Fin (- 0.07)) (Fin 0)),
               Some (Vector2 (Fin (- 0.21)) (Fin 0))],
      phase := Fin 0.13\<rparr>"

definition example_backward :: body where
  "example_backward = example_body
     \<lparr>spine := [Some (Vector2 (Fin (- 0.14)) (Fin 0)), Some (Vector2 (Fin (- 0.28)) (Fin 0)),
               Some (Vector2 NaN NaN)],
      phase := Fin 0.13\<rparr>"

text \<open>
  A body of length 0.1, as the constructor makes it and \<open>initializeSpine\<close> lays it out from
  the origin along the positive x axis: it has two segments and one spring, whose strength
  \<open>0.9 + (0.3 - 0.9) * (0 / 0) ** 1.7\<close> is NaN. \<open>example_short_moved\<close> is that body after its
  head has moved forward to \<open>(0.05, 0)\<close> at speed 0.02.
\<close>

definition example_short :: body where
  "example_short =
     \<lparr>pattern = example_pattern,
      spine = [Some (Vector2 (Fin 0) (Fin 0)), Some (Vector2 (Fin (- 0.1)) (Fin 0))],
      spinePrevious = [Some (Vector2 (Fin 0) (Fin 0)), Some (Vector2 (Fin (- 0.1)) (Fin 0))],
      spacing = Fin 0.1,
      inverseSpacing = Fin 10,
      radii = [Fin 0.05, Fin 0.05],
      springs = [NaN],
      u = [Fin 0.125, Fin 0.875],
      vCenter = Fin 0.5,
      vRadii = [],
      phase = Fin 0\<rparr>"

definition example_short_moved :: body where
  "example_short_moved = example_short
     \<lparr>spine := [Some (Vector2 (Fin 0.05) (Fin 0)), Some (Vector2 NaN NaN)],
      phase := Fin 0.13\<rparr>"

text \<open>
  A concrete collaborator for the examples: fish are numbers, the pond has capacity 10,
  a fish dies in its update exactly when its number is even, and no call changes the
  world.
\<close>

definition even_dies_api :: "(nat, unit, unit, unit, unit, unit) fish_api" where
  "even_dies_api = \<lparr>getCapacity = (\<lambda>c. 10), interact = (\<lambda>f other r w. w),
     fish_update = (\<lambda>f c r w. (even f, w)), free = (\<lambda>f a w. w),
     constraint_render = (\<lambda>c d w. w), fish_render = (\<lambda>f d t w. w)\<rparr>"

section \<open>Properties of the pond\<close>

lemma fishes_foldl_addFish: "fishes (foldl addFish p fs) = fishes p @ fs"
  by (induction fs arbitrary: p) (simp_all add: addFish_def)

lemma capacity_foldl_addFish: "capacity (foldl addFish p fs) = capacity p"
  by (induction fs arbitrary: p) (simp_all add: addFish_def)

text \<open>
  C3: \<open>canSpawn\<close> is true exactly when the number of fish is below the capacity minus
  \<open>SPAWN_OVERHEAD = 2\<close>, \<open>canDrop\<close> exactly when it is below the capacity; this holds in
  particular after any sequence of \<open>addFish\<close> on a new pond. With capacity 10, after 8 fish
  \<open>canSpawn\<close> is false and \<open>canDrop\<close> true, and after 10 fish \<open>canDrop\<close> is false.
\<close>

theorem capacity_gating:
  "(canSpawn p \<longleftrightarrow> int (length (fishes p)) < capacity p - 2) \<and>
   (canDrop p \<longleftrightarrow> int (length (fishes p)) < capacity p) \<and>
   (canSpawn (foldl addFish (Pond api c) fs) \<longleftrightarrow> int (length fs) < getCapacity api c - 2) \<and>
   (canDrop (foldl addFish (Pond api c) fs) \<longleftrightarrow> int (length fs) < getCapacity api c) \<and>
   \<not> canSpawn (foldl addFish (Pond even_dies_api ()) [1, 2, 3, 4, 5, 6, 7, 8]) \<and>
   canDrop (foldl addFish (Pond even_dies_api ()) [1, 2, 3, 4, 5, 6, 7, 8]) \<and>
   \<not> canDrop (foldl addFish (Pond even_dies_api ()) [1, 2, 3, 4, 5, 6, 7, 8, 9, 10])"
  by (simp add: canSpawn_def canDrop_def SPAWN_OVERHEAD_def fishes_foldl_addFish
      capacity_foldl_addFish Pond_def even_dies_api_def del: foldl_Cons foldl_Nil)
























section \<open>Properties of the fish body\<close>

lemma Fin_minus [simp]: "Fin x - Fin y = Fin (x - y)"
  by (simp add: minus_num_def)

lemma for_loop_append:
  "for_loop f (xs @ ys) s = (case for_loop f xs s of Inl e \<Rightarrow> Inl e | Inr s' \<Rightarrow> for_loop f ys s')"
  by (induction xs arbitrary: s) (simp_all split: sum.splits)

lemma for_loop_invariant:
  assumes "for_loop f xs s = Inr s'" and "I s"
    and "\<And>a t t'. a \<in> set xs \<Longrightarrow> I t \<Longrightarrow> f a t = Inr t' \<Longrightarrow> I t'"
  shows "I s'"
  using assms
proof (induction xs arbitrary: s)
  case Nil
  then show ?case by simp
next
  case (Cons a xs)
  from Cons.prems(1) obtain t where t: "f a s = Inr t" "for_loop f xs t = Inr s'"
    by (auto split: sum.splits)
  have "I t" using Cons.prems(3) [of a s t] Cons.prems(2) t(1) by simp
  then show ?case
    by (rule Cons.IH [OF t(2)]) (use Cons.prems(3) in auto)
qed

lemma arr_get_update: "arr_get (xs[k := v]) i = (if i = k \<and> k < length xs then v else arr_get xs i)"
  by (simp add: arr_get_def)

lemma arr_get_Some: "None \<notin> set xs \<Longrightarrow> i < length xs \<Longrightarrow> \<exists>v. arr_get xs i = Some v"
  by (cases "xs ! i") (auto simp: arr_get_def dest: nth_mem)

lemma store_list_step:
  "k < length sp \<Longrightarrow> length spp = length sp \<Longrightarrow>
   (take k sp @ drop k spp)[k := sp ! k] = take (Suc k) sp @ drop (Suc k) spp"
proof -
  assume k: "k < length sp" and len: "length spp = length sp"
  have "drop k spp = spp ! k # drop (Suc k) spp"
    using k len by (simp add: Cons_nth_drop_Suc)
  then show ?thesis
    using k by (simp add: list_update_append take_Suc_conv_app_nth)
qed

lemma storePreviousState_prefix:
  assumes "initialized b" and "k \<le> length (spine b)"
  shows "for_loop storePreviousState_segment [0..<k] b =
           Inr (b\<lparr>spinePrevious := take k (spine b) @ drop k (spinePrevious b)\<rparr>)"
  using assms(2)
proof (induction k)
  case 0
  show ?case by simp
next
  case (Suc k)
  then have k: "k < length (spine b)" by simp
  let ?t = "b\<lparr>spinePrevious := take k (spine b) @ drop k (spinePrevious b)\<rparr>"
  have len: "length (spinePrevious b) = length (spine b)"
    and nn: "None \<notin> set (spine b)" "None \<notin> set (spinePrevious b)"
    using assms(1) by (simp_all add: initialized_def)
  obtain s where s: "spine b ! k = Some s"
    using nn(1) k nth_mem [of k "spine b"] by (cases "spine b ! k") auto
  obtain p where p: "spinePrevious b ! k = Some p"
    using nn(2) k len nth_mem [of k "spinePrevious b"] by (cases "spinePrevious b ! k") auto
  have "storePreviousState_segment k ?t =
          Inr (?t\<lparr>spinePrevious := (take k (spine b) @ drop k (spinePrevious b))[k := spine b ! k]\<rparr>)"
    using k len s p by (simp add: storePreviousState_segment_def arr_get_def nth_append)
  then have "storePreviousState_segment k ?t =
          Inr (b\<lparr>spinePrevious := take (Suc k) (spine b) @ drop (Suc k) (spinePrevious b)\<rparr>)"
    using store_list_step [OF k len] by simp
  then show ?case using Suc.IH k by (simp add: for_loop_append)
qed

lemma storePreviousState_initialized:
  "initialized b \<Longrightarrow> storePreviousState b = Inr (b\<lparr>spinePrevious := spine b\<rparr>)"
  using storePreviousState_prefix [of b "length (spine b)"]
  by (simp add: storePreviousState_def initialized_def)

lemma update_begin_initialized:
  assumes "initialized b"
  shows "update_begin angle b head direction speed =
     Inr (b\<lparr>spinePrevious := spine b, spine := (spine b)[0 := Some head]\<rparr>,
          Math_cos (angle direction + Math_PI +
             Math_cos (phase b) * (speed - SPEED_THRESHOLD) * SWIM_AMPLITUDE),
          Math_sin (angle direction + Math_PI +
             Math_cos (phase b) * (speed - SPEED_THRESHOLD) * SWIM_AMPLITUDE))"
proof -
  obtain v where "arr_get (spine b) 0 = Some v"
    using assms arr_get_Some [of "spine b" 0] by (auto simp: initialized_def)
  then show ?thesis
    using storePreviousState_initialized [OF assms]
    by (simp add: update_begin_def Let_def)
qed

lemma update_phase_fields [simp]:
  "spine (update_phase b speed) = spine b"
  "spinePrevious (update_phase b speed) = spinePrevious b"
  "spacing (update_phase b speed) = spacing b"
  by (simp_all add: update_phase_def Let_def)

lemma initialized_fields:
  "initialized (b\<lparr>spine := sp, spinePrevious := spp\<rparr>) =
     (0 < length sp \<and> length spp = length sp \<and> None \<notin> set sp \<and> None \<notin> set spp)"
  "initialized (update_phase b speed) = initialized b"
  by (simp_all add: initialized_def)

lemma minus_NaN [simp]: "NaN - a = NaN" "a - NaN = NaN"
  by (cases a; simp add: minus_num_def)+

lemma example_initialized: "initialized example_body"
  by (simp add: initialized_def example_body_def)

lemma sqrt_rat: "0 \<le> y \<Longrightarrow> y * y = x \<Longrightarrow> sqrt x = (y::real)"
  by (metis abs_of_nonneg real_sqrt_abs2)

lemma example_sqrts:
  "sqrt (441 / 10000) = 21 / 100"
  "sqrt (21609 / 1000000) = 147 / 1000"
  "sqrt (35721 / 1000000) = 189 / 1000"
  "sqrt (3969 / 250000) = 63 / 500"
  by (rule sqrt_rat; simp)+

lemma example_begin:
  "update_begin example_angle example_body head (Vector2 (Fin 1) (Fin 0)) (Fin 0.02)
    = Inr (example_body\<lparr>spine := (spine example_body)[0 := Some head]\<rparr>, Fin (- 1), Fin 0)"
  by (simp add: update_begin_initialized [OF example_initialized] example_angle_def
      SPEED_THRESHOLD_def SWIM_AMPLITUDE_def Math_PI_def)
     (simp add: example_body_def)

lemma forward_loop:
  "for_loop update_segment [1..<3]
     (example_body\<lparr>spine := (spine example_body)[0 := Some (Vector2 (Fin 0.07) (Fin 0))]\<rparr>, Fin (- 1), Fin 0)
   = Inr (example_body\<lparr>spine := [Some (Vector2 (Fin 0.07) (Fin 0)), Some (Vector2 (Fin (- 0.07)) (Fin 0)),
               Some (Vector2 (Fin (- 0.21)) (Fin 0))]\<rparr>, Fin (- 1), Fin 0)"
  by (simp add: update_segment_def Let_def arr_get_def num_at_def example_body_def example_sqrts upt_rec)

lemma example_length: "length (spine (example_body\<lparr>spine := (spine example_body)[0 := v]\<rparr>)) = 3"
  by (simp add: example_body_def)

lemma forward_update:
  "update example_angle example_body (Vector2 (Fin 0.07) (Fin 0)) (Vector2 (Fin 1) (Fin 0)) (Fin 0.02)
     = Inr example_forward"
  unfolding update_def example_begin sum.case fst_conv example_length forward_loop prod.case
  using pi_ge_two by (simp add: update_phase_def example_forward_def example_body_def SWIM_SPEED_def Math_PI_def Let_def)

lemma back_loop:
  "for_loop update_segment [1..<3]
     (example_body\<lparr>spine := (spine example_body)[0 := Some (Vector2 (Fin (- 0.14)) (Fin 0))]\<rparr>, Fin (- 1), Fin 0)
   = Inr (example_body\<lparr>spine := [Some (Vector2 (Fin (- 0.14)) (Fin 0)), Some (Vector2 (Fin (- 0.28)) (Fin 0)),
               Some (Vector2 NaN NaN)]\<rparr>, NaN, NaN)"
  by (simp add: update_segment_def Let_def arr_get_def num_at_def example_body_def example_sqrts upt_rec)

lemma update_segment_result:
  assumes "arr_get (spine b) k = Some s" and "arr_get (spine b) (k - 1) = Some p"
  shows "\<exists>s' xd yd. update_segment k (b, xDir, yDir) = Inr (b\<lparr>spine := (spine b)[k := Some s']\<rparr>, xd, yd)"
  using assms by (simp add: update_segment_def Let_def) (rule exI, rule refl)

lemma update_segment_frame:
  assumes "update_segment k (b, xDir, yDir) = Inr st"
  shows "\<exists>s' xd yd. st = (b\<lparr>spine := (spine b)[k := Some s']\<rparr>, xd, yd)"
  using assms by (auto simp: update_segment_def Let_def split: option.splits)

lemma pass_total:
  assumes "xs = [k..<length (spine b)]" and "1 \<le> k" and "None \<notin> set (spine b)"
  shows "\<exists>sp xd yd. for_loop update_segment xs (b, xDir, yDir) = Inr (b\<lparr>spine := sp\<rparr>, xd, yd) \<and>
           length sp = length (spine b) \<and> None \<notin> set sp \<and>
           (\<forall>i. i < k \<longrightarrow> sp ! i = spine b ! i)"
  using assms
proof (induction xs arbitrary: k b xDir yDir)
  case Nil
  have "for_loop update_segment [] (b, xDir, yDir) = Inr (b\<lparr>spine := spine b\<rparr>, xDir, yDir)"
    by simp
  with Nil.prems show ?case by blast
next
  case (Cons a xs)
  from Cons.prems(1) [symmetric]
  have k: "a = k" "xs = [Suc k..<length (spine b)]" "k < length (spine b)"
    by (auto simp: upt_eq_Cons_conv)
  obtain s where s: "arr_get (spine b) k = Some s"
    using arr_get_Some [OF Cons.prems(3) k(3)] by blast
  have "k - 1 < length (spine b)" using k(3) by simp
  then obtain p where p: "arr_get (spine b) (k - 1) = Some p"
    using arr_get_Some [OF Cons.prems(3)] by blast
  from update_segment_result [OF s p]
  obtain s' xd yd where st: "update_segment k (b, xDir, yDir) =
        Inr (b\<lparr>spine := (spine b)[k := Some s']\<rparr>, xd, yd)"
    by blast
  let ?b1 = "b\<lparr>spine := (spine b)[k := Some s']\<rparr>"
  have a1: "xs = [Suc k..<length (spine ?b1)]" using k(2) by simp
  have a3: "None \<notin> set (spine ?b1)"
    using Cons.prems(3) set_update_subset_insert [of "spine b" k "Some s'"] by auto
  from Cons.IH [OF a1 _ a3, of xd yd]
  obtain sp xd' yd' where r:
      "for_loop update_segment xs (?b1, xd, yd) = Inr (?b1\<lparr>spine := sp\<rparr>, xd', yd')"
      "length sp = length (spine ?b1)" "None \<notin> set sp"
      "\<forall>i. i < Suc k \<longrightarrow> sp ! i = spine ?b1 ! i"
    by auto
  have "for_loop update_segment (a # xs) (b, xDir, yDir) = Inr (b\<lparr>spine := sp\<rparr>, xd', yd')"
    using st r(1) k(1) by simp
  moreover have "length sp = length (spine b)" using r(2) by simp
  moreover have "\<forall>i. i < k \<longrightarrow> sp ! i = spine b ! i" using r(4) by simp
  ultimately show ?case using r(3) by blast
qed

lemma update_total:
  assumes init: "initialized b"
  shows "\<exists>sp. update angle b head direction speed =
            Inr (update_phase (b\<lparr>spinePrevious := spine b, spine := sp\<rparr>) speed) \<and>
          length sp = length (spine b) \<and> None \<notin> set sp \<and> sp ! 0 = Some head"
proof -
  let ?b2 = "b\<lparr>spinePrevious := spine b, spine := (spine b)[0 := Some head]\<rparr>"
  obtain xd yd where ub: "update_begin angle b head direction speed = Inr (?b2, xd, yd)"
    using update_begin_initialized [OF init] by blast
  have nn: "None \<notin> set (spine b)" "0 < length (spine b)"
    using init by (simp_all add: initialized_def)
  have a3: "None \<notin> set (spine ?b2)"
    using nn(1) set_update_subset_insert [of "spine b" 0 "Some head"] by auto
  from pass_total [OF refl _ a3, of 1 xd yd]
  obtain sp xd' yd' where r:
      "for_loop update_segment [1..<length (spine ?b2)] (?b2, xd, yd) = Inr (?b2\<lparr>spine := sp\<rparr>, xd', yd')"
      "length sp = length (spine ?b2)" "None \<notin> set sp"
      "\<forall>i. i < 1 \<longrightarrow> sp ! i = spine ?b2 ! i"
    by auto
  have "update angle b head direction speed =
      Inr (update_phase (b\<lparr>spinePrevious := spine b, spine := sp\<rparr>) speed)"
    using ub r(1) by (simp add: update_def)
  moreover have "sp ! 0 = Some head" using r(4) nn(2) by simp
  ultimately show ?thesis using r(2,3) by auto
qed

lemma storePreviousState_frame:
  assumes "storePreviousState b = Inr b1"
  shows "\<exists>spp. b1 = b\<lparr>spinePrevious := spp\<rparr> \<and> length spp = length (spinePrevious b)"
proof -
  let ?I = "\<lambda>t. \<exists>spp. t = b\<lparr>spinePrevious := spp\<rparr> \<and> length spp = length (spinePrevious b)"
  have "?I b1"
  proof (rule for_loop_invariant [where I = ?I, OF assms [unfolded storePreviousState_def]])
    show "?I b" by (rule exI [of _ "spinePrevious b"]) simp
  next
    fix a t t'
    assume "?I t" and "storePreviousState_segment a t = Inr t'"
    then show "?I t'"
      by (auto simp: storePreviousState_segment_def split: option.splits)
  qed
  then show ?thesis .
qed

lemma update_loop_frame:
  assumes "for_loop update_segment xs (b, xDir, yDir) = Inr st"
  shows "\<exists>sp. fst st = b\<lparr>spine := sp\<rparr> \<and> length sp = length (spine b)"
proof -
  let ?I = "\<lambda>t. \<exists>sp. fst t = b\<lparr>spine := sp\<rparr> \<and> length sp = length (spine b)"
  show "?I st"
  proof (rule for_loop_invariant [where I = ?I, OF assms])
    show "?I (b, xDir, yDir)" by (simp, rule exI [of _ "spine b"]) simp
  next
    fix a t t'
    assume I: "?I t" and step: "update_segment a t = Inr t'"
    obtain tb tx ty where t: "t = (tb, tx, ty)" by (cases t)
    from update_segment_frame [OF step [unfolded t]] I t show "?I t'" by auto
  qed
qed

lemma update_frame:
  assumes "update angle b head direction speed = Inr b'"
  shows "\<exists>sp spp. b' = update_phase (b\<lparr>spinePrevious := spp, spine := sp\<rparr>) speed \<and>
           length sp = length (spine b) \<and> length spp = length (spinePrevious b)"
proof -
  from assms obtain st where ub: "update_begin angle b head direction speed = Inr st"
    by (auto simp: update_def split: sum.splits)
  from assms ub obtain st' where lp: "for_loop update_segment [1..<length (spine (fst st))] st = Inr st'"
    and b': "b' = update_phase (fst st') speed"
    by (auto simp: update_def split: sum.splits)
  from ub obtain b1 where b1: "storePreviousState b = Inr b1"
    and st: "\<exists>xd yd. st = (b1\<lparr>spine := (spine b1)[0 := Some head]\<rparr>, xd, yd)"
    by (auto simp: update_begin_def Let_def split: sum.splits option.splits)
  from storePreviousState_frame [OF b1] obtain spp where
    spp: "b1 = b\<lparr>spinePrevious := spp\<rparr>" "length spp = length (spinePrevious b)" by blast
  from st obtain xd yd where st2: "st = (b1\<lparr>spine := (spine b1)[0 := Some head]\<rparr>, xd, yd)" by blast
  from update_loop_frame [OF lp [unfolded st2]] obtain sp where
    sp: "fst st' = b1\<lparr>spine := (spine b1)[0 := Some head]\<rparr>\<lparr>spine := sp\<rparr>"
        "length sp = length (spine (b1\<lparr>spine := (spine b1)[0 := Some head]\<rparr>))" by blast
  have "b' = update_phase (b\<lparr>spinePrevious := spp, spine := sp\<rparr>) speed"
    using b' sp(1) spp(1) by simp
  moreover have "length sp = length (spine b)" using sp(2) spp(1) by simp
  ultimately show ?thesis using spp(2) by blast
qed

lemma render_segment_step:
  assumes "render_segment b time k (r, xE, yE, dxE, dyE) = Inr st"
    and "centerline b time (k - 1) = Some (Vector2 xE yE)"
  shows "\<exists>xE' yE' dx dy. st = (r @ segment_commands b time k, xE', yE', dx, dy) \<and>
           centerline b time k = Some (Vector2 xE' yE')"
  using assms
  by (auto simp: render_segment_def segment_commands_def centerline_def Let_def
      split: option.splits)

lemma render_segment_total:
  assumes "arr_get (spinePrevious b) k = Some p" and "arr_get (spine b) k = Some s"
  shows "\<exists>st. render_segment b time k (r, xE, yE, dxE, dyE) = Inr st"
  using assms by (simp add: render_segment_def Let_def)

lemma render_loop:
  assumes "for_loop (render_segment b time) xs (r, xE, yE, dxE, dyE) = Inr st"
    and "xs = [k..<n]" and "1 \<le> k"
    and "centerline b time (k - 1) = Some (Vector2 xE yE)"
  shows "fst st = r @ concat (map (segment_commands b time) xs)"
  using assms
proof (induction xs arbitrary: k r xE yE dxE dyE)
  case Nil
  then show ?case by auto
next
  case (Cons a xs)
  from Cons.prems(2) [symmetric]
  have k: "a = k" "xs = [Suc k..<n]" by (auto simp: upt_eq_Cons_conv)
  from Cons.prems(1) obtain t where t: "render_segment b time k (r, xE, yE, dxE, dyE) = Inr t"
    "for_loop (render_segment b time) xs t = Inr st"
    using k(1) by (auto split: sum.splits)
  from render_segment_step [OF t(1) Cons.prems(4)]
  obtain xE' yE' dx dy where s: "t = (r @ segment_commands b time k, xE', yE', dx, dy)"
    "centerline b time k = Some (Vector2 xE' yE')" by blast
  have "fst st = (r @ segment_commands b time k) @ concat (map (segment_commands b time) xs)"
    by (rule Cons.IH [OF t(2) [unfolded s(1)] k(2)]) (simp_all add: s(2))
  then show ?case using k(1) by simp
qed

lemma render_loop_total:
  assumes "xs = [k..<length (spine b)]" and "length (spinePrevious b) = length (spine b)"
    and "None \<notin> set (spine b)" and "None \<notin> set (spinePrevious b)"
  shows "\<exists>st. for_loop (render_segment b time) xs st0 = Inr st"
  using assms(1)
proof (induction xs arbitrary: k st0)
  case Nil
  show ?case by (rule exI [of _ st0]) simp
next
  case (Cons a xs)
  from Cons.prems(1) [symmetric]
  have k: "a = k" "xs = [Suc k..<length (spine b)]" "k < length (spine b)"
    by (auto simp: upt_eq_Cons_conv)
  obtain s where s: "arr_get (spine b) k = Some s"
    using arr_get_Some [OF assms(3) k(3)] by blast
  obtain p where p: "arr_get (spinePrevious b) k = Some p"
    using arr_get_Some [OF assms(4), of k] k(3) assms(2) by auto
  obtain r xE yE dxE dyE where st0: "st0 = (r, xE, yE, dxE, dyE)"
    by (rule prod_cases5)
  from render_segment_total [OF p s] obtain t where
    t: "render_segment b time k st0 = Inr t" unfolding st0 by blast
  from Cons.IH [OF k(2), of t] obtain st where "for_loop (render_segment b time) xs t = Inr st"
    by blast
  then have "for_loop (render_segment b time) (a # xs) st0 = Inr st"
    using t k(1) by simp
  then show ?case by (rule exI)
qed

lemma render_closed:
  assumes "render b r time = Inr (b', r')"
  shows "b' = b \<and> r' = r @ strip_commands b time"
proof -
  from assms obtain p s where ps: "arr_get (spinePrevious b) 0 = Some p" "arr_get (spine b) 0 = Some s"
    by (auto simp: render_def split: option.splits)
  let ?x = "vx p + (vx s - vx p) * time" and ?y = "vy p + (vy s - vy p) * time"
  let ?r1 = "r @ [CutStrip ?x ?y (num_at (u b) 0) (vCenter b)]"
  have c0: "centerline b time 0 = Some (Vector2 ?x ?y)"
    using ps by (simp add: centerline_def)
  from assms ps obtain st where
    lp: "for_loop (render_segment b time) [1..<length (spine b)] (?r1, ?x, ?y, Fin 0, Fin 0) = Inr st"
    and res: "b' = b" "r' = fst st"
    by (auto simp: render_def Let_def split: sum.splits)
  have "fst st = ?r1 @ concat (map (segment_commands b time) [1..<length (spine b)])"
    by (rule render_loop [OF lp refl]) (simp_all add: c0)
  then show ?thesis using res c0 by (simp add: strip_commands_def)
qed

lemma render_total:
  assumes "initialized b"
  shows "render b r time = Inr (b, r @ strip_commands b time)"
proof -
  have i: "0 < length (spine b)" "length (spinePrevious b) = length (spine b)"
    "None \<notin> set (spine b)" "None \<notin> set (spinePrevious b)"
    using assms by (simp_all add: initialized_def)
  obtain s where s: "arr_get (spine b) 0 = Some s"
    using arr_get_Some [OF i(3,1)] by blast
  obtain p where p: "arr_get (spinePrevious b) 0 = Some p"
    using arr_get_Some [OF i(4), of 0] i(1,2) by auto
  let ?x = "vx p + (vx s - vx p) * time" and ?y = "vy p + (vy s - vy p) * time"
  let ?r1 = "r @ [CutStrip ?x ?y (num_at (u b) 0) (vCenter b)]"
  from render_loop_total [OF refl i(2,3,4), of time 1 "(?r1, ?x, ?y, Fin 0, Fin 0)"]
  obtain st where "for_loop (render_segment b time) [1..<length (spine b)] (?r1, ?x, ?y, Fin 0, Fin 0) = Inr st"
    by blast
  then obtain r' where "render b r time = Inr (b, r')"
    using s p by (cases st) (simp add: render_def Let_def)
  then show ?thesis using render_closed by blast
qed

lemma backward_update:
  "update example_angle example_body (Vector2 (Fin (- 0.14)) (Fin 0)) (Vector2 (Fin 1) (Fin 0)) (Fin 0.02)
     = Inr example_backward"
  unfolding update_def example_begin sum.case fst_conv example_length back_loop prod.case
  using pi_ge_two by (simp add: update_phase_def example_backward_def example_body_def SWIM_SPEED_def Math_PI_def Let_def)

lemma nan_absorbs:
  "a + NaN = NaN" "NaN + a = NaN" "NaN * a = NaN" "a * NaN = NaN" "NaN / a = NaN" "a / NaN = NaN"
  by (cases a; simp)+

lemma finite_slot_Some: "finite_slot v \<Longrightarrow> \<exists>a c. v = Some (Vector2 (Fin a) (Fin c))"
proof -
  assume f: "finite_slot v"
  then obtain w where w: "v = Some w" by (cases v) (auto simp: finite_slot_def)
  obtain x y where xy: "w = Vector2 x y" by (cases w)
  from f w xy obtain a c where "x = Fin a" "y = Fin c"
    by (cases x; cases y) (auto simp: finite_slot_def)
  with w xy show ?thesis by blast
qed

lemma update_segment_nan:
  assumes "arr_get (spine b) k = Some s" and "arr_get (spine b) (k - 1) = Some p"
    and "xDir = NaN \<and> yDir = NaN \<or> p = Vector2 NaN NaN"
  shows "\<exists>xd yd. update_segment k (b, xDir, yDir) =
           Inr (b\<lparr>spine := (spine b)[k := Some (Vector2 NaN NaN)]\<rparr>, xd, yd)"
  using assms by (auto simp: update_segment_def Let_def nan_absorbs)

lemma pass_nan:
  assumes "xs = [k..<length (spine b)]" and "1 \<le> k" and "None \<notin> set (spine b)"
    and "xDir = NaN \<and> yDir = NaN \<or> arr_get (spine b) (k - 1) = Some (Vector2 NaN NaN)"
  shows "\<exists>sp xd yd. for_loop update_segment xs (b, xDir, yDir) = Inr (b\<lparr>spine := sp\<rparr>, xd, yd) \<and>
           length sp = length (spine b) \<and>
           (\<forall>i. i < k \<longrightarrow> sp ! i = spine b ! i) \<and>
           (\<forall>i. k \<le> i \<and> i < length (spine b) \<longrightarrow> sp ! i = Some (Vector2 NaN NaN))"
  using assms
proof (induction xs arbitrary: k b xDir yDir)
  case Nil
  from Nil.prems(1) [symmetric] have "length (spine b) \<le> k" by auto
  then have "for_loop update_segment [] (b, xDir, yDir) = Inr (b\<lparr>spine := spine b\<rparr>, xDir, yDir) \<and>
           length (spine b) = length (spine b) \<and>
           (\<forall>i. i < k \<longrightarrow> spine b ! i = spine b ! i) \<and>
           (\<forall>i. k \<le> i \<and> i < length (spine b) \<longrightarrow> spine b ! i = Some (Vector2 NaN NaN))"
    by auto
  then show ?case by blast
next
  case (Cons a xs)
  from Cons.prems(1) [symmetric]
  have k: "a = k" "xs = [Suc k..<length (spine b)]" "k < length (spine b)"
    by (auto simp: upt_eq_Cons_conv)
  obtain s where s: "arr_get (spine b) k = Some s"
    using arr_get_Some [OF Cons.prems(3) k(3)] by blast
  have "k - 1 < length (spine b)" using k(3) by simp
  then obtain p where p: "arr_get (spine b) (k - 1) = Some p"
    using arr_get_Some [OF Cons.prems(3)] by blast
  have c: "xDir = NaN \<and> yDir = NaN \<or> p = Vector2 NaN NaN"
    using Cons.prems(4) p by auto
  from update_segment_nan [OF s p c]
  obtain xd yd where st: "update_segment k (b, xDir, yDir) =
        Inr (b\<lparr>spine := (spine b)[k := Some (Vector2 NaN NaN)]\<rparr>, xd, yd)"
    by blast
  let ?b1 = "b\<lparr>spine := (spine b)[k := Some (Vector2 NaN NaN)]\<rparr>"
  have a1: "xs = [Suc k..<length (spine ?b1)]" using k(2) by simp
  have a3: "None \<notin> set (spine ?b1)"
    using Cons.prems(3) set_update_subset_insert [of "spine b" k "Some (Vector2 NaN NaN)"] by auto
  have a4: "xd = NaN \<and> yd = NaN \<or> arr_get (spine ?b1) (Suc k - 1) = Some (Vector2 NaN NaN)"
    using k(3) by (simp add: arr_get_def)
  from Cons.IH [OF a1 _ a3 a4]
  obtain sp xd' yd' where r:
      "for_loop update_segment xs (?b1, xd, yd) = Inr (?b1\<lparr>spine := sp\<rparr>, xd', yd')"
      "length sp = length (spine ?b1)"
      "\<forall>i. i < Suc k \<longrightarrow> sp ! i = spine ?b1 ! i"
      "\<forall>i. Suc k \<le> i \<and> i < length (spine ?b1) \<longrightarrow> sp ! i = Some (Vector2 NaN NaN)"
    by auto
  have "for_loop update_segment (a # xs) (b, xDir, yDir) = Inr (b\<lparr>spine := sp\<rparr>, xd', yd')"
    using st r(1) k(1) by simp
  moreover have "length sp = length (spine b)" using r(2) by simp
  moreover have "\<forall>i. i < k \<longrightarrow> sp ! i = spine b ! i" using r(3) by simp
  moreover have "\<forall>i. k \<le> i \<and> i < length (spine b) \<longrightarrow> sp ! i = Some (Vector2 NaN NaN)"
  proof (intro allI impI)
    fix i assume i: "k \<le> i \<and> i < length (spine b)"
    show "sp ! i = Some (Vector2 NaN NaN)"
    proof (cases "i = k")
      case True
      then show ?thesis using r(3) k(3) by simp
    next
      case False
      then show ?thesis using r(4) i by simp
    qed
  qed
  ultimately show ?case by blast
qed

lemma head_on_segment:
  assumes init: "initialized b" and len: "2 \<le> length (spine b)"
    and one: "arr_get (spine b) 1 = Some head" and fin: "finite_slot (Some head)"
  shows "\<exists>sp ds. update angle b head direction speed =
            Inr (update_phase (b\<lparr>spinePrevious := spine b, spine := sp\<rparr>) speed) \<and>
          update_divisors angle b head direction speed = Fin 0 # ds \<and>
          length sp = length (spine b) \<and>
          (\<forall>i. 2 \<le> i \<and> i < length (spine b) \<longrightarrow> sp ! i = Some (Vector2 NaN NaN))"
proof -
  let ?b2 = "b\<lparr>spinePrevious := spine b, spine := (spine b)[0 := Some head]\<rparr>"
  obtain xd yd where ub: "update_begin angle b head direction speed = Inr (?b2, xd, yd)"
    using update_begin_initialized [OF init] by blast
  from finite_slot_Some [OF fin] obtain a c where h: "head = Vector2 (Fin a) (Fin c)" by auto
  have nn: "None \<notin> set (spine b)" using init by (simp add: initialized_def)
  have g: "arr_get (spine ?b2) 1 = Some head" "arr_get (spine ?b2) 0 = Some head"
    using one len by (auto simp: arr_get_def)
  have d0: "vx head - vx head = Fin 0" "vy head - vy head = Fin 0" using h by simp_all
  have "\<exists>s1. update_segment 1 (?b2, xd, yd) =
          Inr (?b2\<lparr>spine := (spine ?b2)[1 := Some s1]\<rparr>, NaN, NaN)"
    using g unfolding update_segment_def Let_def prod.case
    by (simp add: d0) (rule exI, rule refl)
  then obtain s1 where step: "update_segment 1 (?b2, xd, yd) =
          Inr (?b2\<lparr>spine := (spine ?b2)[1 := Some s1]\<rparr>, NaN, NaN)"
    by blast
  let ?b3 = "?b2\<lparr>spine := (spine ?b2)[1 := Some s1]\<rparr>"
  obtain d' where dv: "segment_divisors 1 (?b2, xd, yd) = [Fin 0, d']"
    using g unfolding segment_divisors_def Let_def prod.case
    by (simp add: d0)
  have fp: "[1..<length (spine ?b2)] = 1 # [2..<length (spine ?b2)]"
    using len by (simp add: upt_conv_Cons numeral_2_eq_2)
  have a3: "None \<notin> set (spine ?b3)"
    using nn set_update_subset_insert [of "spine b" 0 "Some head"]
      set_update_subset_insert [of "(spine b)[0 := Some head]" 1 "Some s1"] by auto
  have l3: "length (spine ?b3) = length (spine ?b2)" by simp
  from pass_nan [of "[2..<length (spine ?b3)]" 2 ?b3 NaN NaN, OF refl _ a3]
  obtain sp xd' yd' where r:
      "for_loop update_segment [2..<length (spine ?b3)] (?b3, NaN, NaN) = Inr (?b3\<lparr>spine := sp\<rparr>, xd', yd')"
      "length sp = length (spine ?b3)"
      "\<forall>i. 2 \<le> i \<and> i < length (spine ?b3) \<longrightarrow> sp ! i = Some (Vector2 NaN NaN)"
    by auto
  have lp: "for_loop update_segment [1..<length (spine ?b2)] (?b2, xd, yd) = Inr (?b3\<lparr>spine := sp\<rparr>, xd', yd')"
    unfolding fp using step r(1) by simp
  have u: "update angle b head direction speed =
            Inr (update_phase (b\<lparr>spinePrevious := spine b, spine := sp\<rparr>) speed)"
    unfolding update_def ub sum.case fst_conv lp by simp
  have "update_divisors angle b head direction speed =
      Fin 0 # d' # pass_divisors [2..<length (spine ?b2)] (?b3, NaN, NaN)"
    unfolding update_divisors_def ub sum.case fst_conv fp pass_divisors.simps dv step by simp
  with u r(2,3) show ?thesis by auto
qed

text \<open>
  C7 (as amended): \<open>update\<close> divides by the distance between two segments without a guard.
  Whenever the head of an initialized body with at least three segments is moved onto the
  position of segment 1, with finite coordinates, the call returns, its first divisor is 0,
  the direction becomes \<open>0/0 = NaN\<close>, and afterwards every segment from index 2 on has the
  coordinates \<open>(NaN, NaN)\<close>.
\<close>

theorem update_division_by_zero:
  "initialized b \<and> 3 \<le> length (spine b) \<and> arr_get (spine b) 1 = Some head \<and>
   finite_slot (Some head) \<longrightarrow>
     (\<exists>b' ds. update angle b head direction speed = Inr b' \<and>
        update_divisors angle b head direction speed = Fin 0 # ds \<and>
        length (spine b') = length (spine b) \<and>
        (\<forall>i. 2 \<le> i \<and> i < length (spine b') \<longrightarrow> arr_get (spine b') i = Some (Vector2 NaN NaN)))"
proof (intro impI)
  assume a: "initialized b \<and> 3 \<le> length (spine b) \<and> arr_get (spine b) 1 = Some head \<and>
   finite_slot (Some head)"
  then have "2 \<le> length (spine b)" by simp
  from head_on_segment [OF _ this, of head angle direction speed] a
  obtain sp ds where r: "update angle b head direction speed =
            Inr (update_phase (b\<lparr>spinePrevious := spine b, spine := sp\<rparr>) speed)"
          "update_divisors angle b head direction speed = Fin 0 # ds"
          "length sp = length (spine b)"
          "\<forall>i. 2 \<le> i \<and> i < length (spine b) \<longrightarrow> sp ! i = Some (Vector2 NaN NaN)"
    by blast
  let ?b' = "update_phase (b\<lparr>spinePrevious := spine b, spine := sp\<rparr>) speed"
  have "length (spine ?b') = length (spine b)" using r(3) by simp
  moreover have "\<forall>i. 2 \<le> i \<and> i < length (spine ?b') \<longrightarrow> arr_get (spine ?b') i = Some (Vector2 NaN NaN)"
    using r(3,4) by (simp add: arr_get_def)
  ultimately show "\<exists>b' ds. update angle b head direction speed = Inr b' \<and>
        update_divisors angle b head direction speed = Fin 0 # ds \<and>
        length (spine b') = length (spine b) \<and>
        (\<forall>i. 2 \<le> i \<and> i < length (spine b') \<longrightarrow> arr_get (spine b') i = Some (Vector2 NaN NaN))"
    using r(1,2) by blast
qed

text \<open>
  C7, an instance: the head of the three-segment example body is moved back onto segment 1,
  at \<open>(-0.14, 0)\<close>.
\<close>

theorem update_division_by_zero_witness:
  "initialized example_body \<and> 3 \<le> length (spine example_body) \<and>
   arr_get (spine example_body) 1 = Some (Vector2 (Fin (- 0.14)) (Fin 0)) \<and>
   finite_slot (Some (Vector2 (Fin (- 0.14)) (Fin 0))) \<and>
   update example_angle example_body (Vector2 (Fin (- 0.14)) (Fin 0)) (Vector2 (Fin 1) (Fin 0))
     (Fin 0.02) = Inr example_backward \<and>
   hd (update_divisors example_angle example_body (Vector2 (Fin (- 0.14)) (Fin 0))
     (Vector2 (Fin 1) (Fin 0)) (Fin 0.02)) = Fin 0 \<and>
   length (spine example_backward) = 3 \<and>
   arr_get (spine example_backward) 2 = Some (Vector2 NaN NaN)"
proof -
  have h: "3 \<le> length (spine example_body)"
    "arr_get (spine example_body) 1 = Some (Vector2 (Fin (- 0.14)) (Fin 0))"
    "finite_slot (Some (Vector2 (Fin (- 0.14)) (Fin 0)))"
    by (simp_all add: example_body_def arr_get_def finite_slot_def)
  have l: "length (spine example_backward) = 3" by (simp add: example_backward_def)
  from update_division_by_zero [of example_body "Vector2 (Fin (- 0.14)) (Fin 0)" example_angle
      "Vector2 (Fin 1) (Fin 0)" "Fin 0.02"] example_initialized h
  obtain ds where r:
    "update_divisors example_angle example_body (Vector2 (Fin (- 0.14)) (Fin 0))
       (Vector2 (Fin 1) (Fin 0)) (Fin 0.02) = Fin 0 # ds"
    "\<forall>i. 2 \<le> i \<and> i < length (spine example_backward) \<longrightarrow>
          arr_get (spine example_backward) i = Some (Vector2 NaN NaN)"
    unfolding backward_update by auto
  have "arr_get (spine example_backward) 2 = Some (Vector2 NaN NaN)"
    using r(2) unfolding l by simp
  moreover have "hd (update_divisors example_angle example_body (Vector2 (Fin (- 0.14)) (Fin 0))
     (Vector2 (Fin 1) (Fin 0)) (Fin 0.02)) = Fin 0"
    unfolding r(1) by simp
  ultimately show ?thesis using example_initialized h l backward_update by blast
qed

lemma short_sqrt: "sqrt (9 / 400) = 3 / 20"
  by (rule sqrt_rat; simp)

lemma short_constructed:
  "Body example_pattern example_pixel (Fin 0.1) (Fin 0.1) =
     Inr (example_short\<lparr>spine := [None, None], spinePrevious := [None, None]\<rparr>)"
  by (simp add: Body_def new_Array_def makeSprings_def makeVRadii_def makeRadii_def makeU_def
      RESOLUTION_def SPRING_START_def SPRING_END_def SPRING_POWER_def example_pattern_def
      example_pixel_def example_short_def Let_def upt_rec numeral_2_eq_2)

lemma short_spine_initialized:
  "initializeSpine (example_short\<lparr>spine := [None, None], spinePrevious := [None, None]\<rparr>)
     (Vector2 (Fin 0) (Fin 0)) (Vector2 (Fin 1) (Fin 0)) = Inr example_short"
  by (simp add: initializeSpine_def initializeSpine_segment_def arr_set_def arr_get_def
      example_short_def Let_def upt_rec)

lemma short_initialized: "initialized example_short"
  by (simp add: initialized_def example_short_def)

lemma short_begin:
  "update_begin example_angle example_short head (Vector2 (Fin 1) (Fin 0)) (Fin 0.02)
    = Inr (example_short\<lparr>spine := (spine example_short)[0 := Some head]\<rparr>, Fin (- 1), Fin 0)"
  by (simp add: update_begin_initialized [OF short_initialized] example_angle_def
      SPEED_THRESHOLD_def SWIM_AMPLITUDE_def Math_PI_def)
     (simp add: example_short_def)

lemma short_loop:
  "for_loop update_segment [1..<2]
     (example_short\<lparr>spine := (spine example_short)[0 := Some (Vector2 (Fin 0.05) (Fin 0))]\<rparr>, Fin (- 1), Fin 0)
   = Inr (example_short\<lparr>spine := [Some (Vector2 (Fin 0.05) (Fin 0)), Some (Vector2 NaN NaN)]\<rparr>,
          Fin (- 1), Fin 0)"
  by (simp add: update_segment_def Let_def arr_get_def num_at_def example_short_def short_sqrt upt_rec)

lemma short_divisors:
  "pass_divisors [1..<2]
     (example_short\<lparr>spine := (spine example_short)[0 := Some (Vector2 (Fin 0.05) (Fin 0))]\<rparr>, Fin (- 1), Fin 0)
   = [Fin 0.15, NaN]"
  by (simp add: update_segment_def segment_divisors_def Let_def arr_get_def num_at_def example_short_def short_sqrt upt_rec)

lemma short_length: "length (spine (example_short\<lparr>spine := (spine example_short)[0 := v]\<rparr>)) = 2"
  by (simp add: example_short_def)

lemma short_update:
  "update example_angle example_short (Vector2 (Fin 0.05) (Fin 0)) (Vector2 (Fin 1) (Fin 0)) (Fin 0.02)
     = Inr example_short_moved"
  unfolding update_def short_begin sum.case fst_conv short_length short_loop prod.case
  using pi_ge_two by (simp add: update_phase_def example_short_moved_def example_short_def SWIM_SPEED_def Math_PI_def Let_def)

lemma short_update_divisors:
  "update_divisors example_angle example_short (Vector2 (Fin 0.05) (Fin 0)) (Vector2 (Fin 1) (Fin 0)) (Fin 0.02)
     = [Fin 0.15, NaN]"
  unfolding update_divisors_def short_begin sum.case fst_conv short_length short_divisors
  by simp

text \<open>
  C7 (as stated): a body of length 0.1 has two segments and the spring strength NaN. When its
  head moves forward from the origin to \<open>(0.05, 0)\<close>, the two segments are distinct (the first
  divisor is 0.15) and the blended offset is \<open>(NaN, NaN)\<close>, which is not zero: no divisor of
  the call is 0, and yet segment 1 ends up with NaN coordinates.
\<close>

theorem update_nan_spring_counterexample:
  "Body example_pattern example_pixel (Fin 0.1) (Fin 0.1) =
     Inr (example_short\<lparr>spine := [None, None], spinePrevious := [None, None]\<rparr>) \<and>
   initializeSpine (example_short\<lparr>spine := [None, None], spinePrevious := [None, None]\<rparr>)
     (Vector2 (Fin 0) (Fin 0)) (Vector2 (Fin 1) (Fin 0)) = Inr example_short \<and>
   spine example_short = [Some (Vector2 (Fin 0) (Fin 0)), Some (Vector2 (Fin (- 0.1)) (Fin 0))] \<and>
   springs example_short = [NaN] \<and>
   update example_angle example_short (Vector2 (Fin 0.05) (Fin 0)) (Vector2 (Fin 1) (Fin 0)) (Fin 0.02)
     = Inr example_short_moved \<and>
   update_divisors example_angle example_short (Vector2 (Fin 0.05) (Fin 0)) (Vector2 (Fin 1) (Fin 0))
     (Fin 0.02) = [Fin 0.15, NaN] \<and>
   spine example_short_moved = [Some (Vector2 (Fin 0.05) (Fin 0)), Some (Vector2 NaN NaN)]"
proof -
  have "spine example_short = [Some (Vector2 (Fin 0) (Fin 0)), Some (Vector2 (Fin (- 0.1)) (Fin 0))]"
    "springs example_short = [NaN]"
    "spine example_short_moved = [Some (Vector2 (Fin 0.05) (Fin 0)), Some (Vector2 NaN NaN)]"
    by (simp_all add: example_short_def example_short_moved_def)
  then show ?thesis
    using short_constructed short_spine_initialized short_update short_update_divisors by blast
qed

lemma render_segment_success:
  assumes "render_segment b time k st = Inr t"
  shows "\<exists>t2. render_segment b time k st2 = Inr t2"
proof -
  obtain r xE yE dxE dyE where st: "st = (r, xE, yE, dxE, dyE)" by (rule prod_cases5)
  obtain r2 xE2 yE2 dxE2 dyE2 where st2: "st2 = (r2, xE2, yE2, dxE2, dyE2)" by (rule prod_cases5)
  from assms obtain p s where "arr_get (spinePrevious b) k = Some p" "arr_get (spine b) k = Some s"
    unfolding st by (auto simp: render_segment_def split: option.splits)
  from render_segment_total [OF this] show ?thesis unfolding st2 .
qed

lemma render_loop_success:
  assumes "for_loop (render_segment b time) xs st = Inr t"
  shows "\<exists>t2. for_loop (render_segment b time) xs st2 = Inr t2"
  using assms
proof (induction xs arbitrary: st st2)
  case Nil
  show ?case by (rule exI [of _ st2]) simp
next
  case (Cons a xs)
  from Cons.prems obtain m where m: "render_segment b time a st = Inr m"
    "for_loop (render_segment b time) xs m = Inr t"
    by (auto split: sum.splits)
  from render_segment_success [OF m(1)] obtain m2 where m2: "render_segment b time a st2 = Inr m2"
    by blast
  from Cons.IH [OF m(2), of m2] obtain t2 where "for_loop (render_segment b time) xs m2 = Inr t2"
    by blast
  then have "for_loop (render_segment b time) (a # xs) st2 = Inr t2" using m2 by simp
  then show ?case by (rule exI)
qed

lemma render_again:
  assumes "render b r time = Inr (b', r')"
  shows "render b r2 time = Inr (b, r2 @ strip_commands b time)"
proof -
  from assms obtain p s where ps: "arr_get (spinePrevious b) 0 = Some p" "arr_get (spine b) 0 = Some s"
    by (auto simp: render_def split: option.splits)
  let ?x = "vx p + (vx s - vx p) * time" and ?y = "vy p + (vy s - vy p) * time"
  let ?c = "CutStrip ?x ?y (num_at (u b) 0) (vCenter b)"
  from assms ps obtain st where
    "for_loop (render_segment b time) [1..<length (spine b)] (r @ [?c], ?x, ?y, Fin 0, Fin 0) = Inr st"
    by (auto simp: render_def Let_def split: sum.splits)
  from render_loop_success [OF this, of "(r2 @ [?c], ?x, ?y, Fin 0, Fin 0)"]
  obtain st2 where "for_loop (render_segment b time) [1..<length (spine b)]
      (r2 @ [?c], ?x, ?y, Fin 0, Fin 0) = Inr st2" by blast
  then obtain r2' where "render b r2 time = Inr (b, r2')"
    using ps by (cases st2) (simp add: render_def Let_def)
  then show ?thesis using render_closed by blast
qed

text \<open>
  C8: a call of \<open>render\<close> that returns leaves the body as it was, field by field, and
  appends to the renderer the strip of the body at this \<open>time\<close>, which depends on nothing
  else; any further call with the same \<open>time\<close> before the next update returns too and
  emits the same commands with the same arguments, whatever the renderer has received in
  between. On an initialized body \<open>render\<close> always returns.
\<close>

theorem render_is_pure:
  "(render b r time = Inr (b', r') \<longrightarrow>
      b' = b \<and> r' = r @ strip_commands b time \<and>
      spine b' = spine b \<and> spinePrevious b' = spinePrevious b \<and> phase b' = phase b \<and>
      radii b' = radii b \<and> springs b' = springs b \<and> u b' = u b \<and> vRadii b' = vRadii b \<and>
      render b' r2 time = Inr (b', r2 @ strip_commands b time)) \<and>
   (initialized b \<longrightarrow> render b r time = Inr (b, r @ strip_commands b time))"
proof -
  have "b' = b \<and> r' = r @ strip_commands b time \<and>
      render b' r2 time = Inr (b', r2 @ strip_commands b time)"
    if "render b r time = Inr (b', r')"
    using render_closed [OF that] render_again [OF that] by simp
  then show ?thesis using render_total by blast
qed

lemma example_strip:
  "strip_commands example_forward (Fin 0.5) =
     [CutStrip (Fin 0.035) (Fin 0) (Some (Fin 0.125)) (Fin 0.5),
      DrawStrip (Fin (- 0.105)) (Fin (- 0.05)) (Some (Fin 0.5)) (Fin 0.125),
      DrawStrip (Fin (- 0.105)) (Fin 0.05) (Some (Fin 0.5)) (Fin 0.875),
      DrawStrip (Fin (- 0.245)) (Fin (- 0.05)) (Some (Fin 0.875)) NaN,
      DrawStrip (Fin (- 0.245)) (Fin 0.05) (Some (Fin 0.875)) NaN]"
  by (simp add: strip_commands_def segment_commands_def centerline_def arr_get_def num_at_def
      example_forward_def example_body_def Let_def upt_rec)

lemma forward_initialized: "initialized example_forward"
  by (simp add: initialized_def example_forward_def example_body_def)

text \<open>
  C8, an instance: two frames of the example body half way between its two states.
\<close>

theorem render_is_pure_witness:
  "initialized example_forward \<and>
   render example_forward [] (Fin 0.5) = Inr (example_forward, strip_commands example_forward (Fin 0.5)) \<and>
   render example_forward (strip_commands example_forward (Fin 0.5)) (Fin 0.5) =
     Inr (example_forward,
          strip_commands example_forward (Fin 0.5) @ strip_commands example_forward (Fin 0.5)) \<and>
   strip_commands example_forward (Fin 0.5) =
     [CutStrip (Fin 0.035) (Fin 0) (Some (Fin 0.125)) (Fin 0.5),
      DrawStrip (Fin (- 0.105)) (Fin (- 0.05)) (Some (Fin 0.5)) (Fin 0.125),
      DrawStrip (Fin (- 0.105)) (Fin 0.05) (Some (Fin 0.5)) (Fin 0.875),
      DrawStrip (Fin (- 0.245)) (Fin (- 0.05)) (Some (Fin 0.875)) NaN,
      DrawStrip (Fin (- 0.245)) (Fin 0.05) (Some (Fin 0.875)) NaN]"
proof -
  from render_is_pure [of example_forward "[]" "Fin 0.5" example_forward
      "strip_commands example_forward (Fin 0.5)" "strip_commands example_forward (Fin 0.5)"]
    forward_initialized
  have "render example_forward [] (Fin 0.5) = Inr (example_forward, strip_commands example_forward (Fin 0.5))"
    "render example_forward (strip_commands example_forward (Fin 0.5)) (Fin 0.5) =
     Inr (example_forward,
          strip_commands example_forward (Fin 0.5) @ strip_commands example_forward (Fin 0.5))"
    by simp_all
  then show ?thesis using forward_initialized example_strip by blast
qed

lemma strip_commands_cong:
  assumes "\<And>i. i < length (spine b) \<Longrightarrow> centerline b2 time i = centerline b time i"
    and "length (spine b2) = length (spine b)" and "0 < length (spine b)"
    and "radii b2 = radii b" and "vRadii b2 = vRadii b" and "u b2 = u b"
    and "vCenter b2 = vCenter b" and "inverseSpacing b2 = inverseSpacing b"
  shows "strip_commands b2 time = strip_commands b time"
proof -
  have "segment_commands b2 time i = segment_commands b time i"
    if "i \<in> set [1..<length (spine b)]" for i
  proof -
    have "i < length (spine b)" "i - 1 < length (spine b)" using that by auto
    then show ?thesis using assms(1) assms(4-)
      by (simp add: segment_commands_def split: option.splits)
  qed
  then have "map (segment_commands b2 time) [1..<length (spine b)] =
             map (segment_commands b time) [1..<length (spine b)]"
    by (rule map_cong [OF refl])
  then have m: "concat (map (segment_commands b2 time) [1..<length (spine b)]) =
             concat (map (segment_commands b time) [1..<length (spine b)])"
    by (rule arg_cong)
  show ?thesis
    unfolding strip_commands_def assms(2) assms(1) [OF assms(3)] m assms(6,7) ..
qed

lemma list_all_finite_slot:
  "list_all finite_slot xs \<Longrightarrow> i < length xs \<Longrightarrow> finite_slot (arr_get xs i)"
  by (simp add: list_all_length arr_get_def)

lemma finite_slots_no_empty: "list_all finite_slot xs \<Longrightarrow> None \<notin> set xs"
  by (auto simp: list_all_iff finite_slot_def)

lemma bounded_finite_slot: "bounded_slot v \<Longrightarrow> finite_slot v"
proof -
  assume f: "bounded_slot v"
  then obtain w where w: "v = Some w" by (cases v) (auto simp: bounded_slot_def)
  obtain x y where xy: "w = Vector2 x y" by (cases w)
  from f w xy show ?thesis
    by (cases x; cases y) (auto simp: bounded_slot_def finite_slot_def)
qed

lemma bounded_finite_slots: "list_all bounded_slot xs \<Longrightarrow> list_all finite_slot xs"
  by (auto simp: list_all_iff bounded_finite_slot)

lemma centerline_start:
  assumes "finite_slot (arr_get (spinePrevious b) i)" and "finite_slot (arr_get (spine b) i)"
  shows "centerline b (Fin 0) i = arr_get (spinePrevious b) i"
proof -
  from finite_slot_Some [OF assms(1)] finite_slot_Some [OF assms(2)]
  obtain a c a' c' where "arr_get (spinePrevious b) i = Some (Vector2 (Fin a) (Fin c))"
    "arr_get (spine b) i = Some (Vector2 (Fin a') (Fin c'))" by blast
  then show "centerline b (Fin 0) i = arr_get (spinePrevious b) i"
    by (simp add: centerline_def)
qed

text \<open>
  C10 (as amended): the strip \<open>render\<close> emits is built on the centerline points
  \<open>spinePrevious[i] + (spine[i] - spinePrevious[i]) * time\<close>. For a body whose coordinates in
  \<open>spine\<close> and \<open>spinePrevious\<close> are all finite numbers of magnitude at most \<open>10^300\<close>, the
  point of segment \<open>i\<close> at \<open>time = 0\<close> is \<open>spinePrevious[i]\<close>, the product
  \<open>(spine[i] - spinePrevious[i]) * 0\<close> being 0; hence at \<open>time = 0\<close> the output is the same
  for every such current spine of that length.
\<close>

theorem render_interpolates:
  "(render b r time = Inr (b', r') \<longrightarrow> r' = r @ strip_commands b time) \<and>
   centerline b time i =
     (case (arr_get (spinePrevious b) i, arr_get (spine b) i) of
        (Some p, Some s) \<Rightarrow>
          Some (Vector2 (vx p + (vx s - vx p) * time) (vy p + (vy s - vy p) * time))
      | _ \<Rightarrow> None) \<and>
   (initialized b \<and> list_all bounded_slot (spine b) \<and> list_all bounded_slot (spinePrevious b) \<longrightarrow>
      (i < length (spine b) \<longrightarrow> centerline b (Fin 0) i = arr_get (spinePrevious b) i) \<and>
      (list_all bounded_slot sp \<and> length sp = length (spine b) \<longrightarrow>
         render (b\<lparr>spine := sp\<rparr>) r (Fin 0) = Inr (b\<lparr>spine := sp\<rparr>, r @ strip_commands b (Fin 0))))"
proof -
  have A: "r' = r @ strip_commands b time" if "render b r time = Inr (b', r')"
    using render_closed [OF that] by simp
  have B: "centerline b (Fin 0) i = arr_get (spinePrevious b) i"
    if "list_all bounded_slot (spine b)" "list_all bounded_slot (spinePrevious b)"
      "initialized b" "i < length (spine b)"
  proof -
    have "i < length (spinePrevious b)" using that(3,4) by (simp add: initialized_def)
    then show ?thesis
      using centerline_start [of b i] list_all_finite_slot bounded_finite_slots that by blast
  qed
  have C: "render (b\<lparr>spine := sp\<rparr>) r (Fin 0) = Inr (b\<lparr>spine := sp\<rparr>, r @ strip_commands b (Fin 0))"
    if bs: "list_all bounded_slot (spine b)" and bp: "list_all bounded_slot (spinePrevious b)"
      and init: "initialized b" and bn: "list_all bounded_slot sp" and len: "length sp = length (spine b)"
  proof -
    note fs = bounded_finite_slots [OF bs] and fp = bounded_finite_slots [OF bp]
      and fn = bounded_finite_slots [OF bn]
    have l: "length (spinePrevious b) = length (spine b)" "0 < length (spine b)"
      using init by (simp_all add: initialized_def)
    have i0: "initialized (b\<lparr>spine := sp\<rparr>)"
      using init len finite_slots_no_empty [OF fn] by (simp add: initialized_def)
    have "centerline (b\<lparr>spine := sp\<rparr>) (Fin 0) j = centerline b (Fin 0) j"
      if j: "j < length (spine b)" for j
    proof -
      have "centerline (b\<lparr>spine := sp\<rparr>) (Fin 0) j = arr_get (spinePrevious b) j"
        using centerline_start [of "b\<lparr>spine := sp\<rparr>" j] list_all_finite_slot [OF fn, of j]
          list_all_finite_slot [OF fp, of j] j len l by simp
      moreover have "centerline b (Fin 0) j = arr_get (spinePrevious b) j"
        using centerline_start [of b j] list_all_finite_slot [OF fs, of j]
          list_all_finite_slot [OF fp, of j] j l by simp
      ultimately show ?thesis by simp
    qed
    then have s0: "strip_commands (b\<lparr>spine := sp\<rparr>) (Fin 0) = strip_commands b (Fin 0)"
      using len l by (intro strip_commands_cong) simp_all
    show ?thesis using render_total [OF i0, of r "Fin 0"] s0 by simp
  qed
  show ?thesis using A B C by (simp add: centerline_def)
qed

text \<open>
  C10, an instance: the example body after its forward move, segment 1.
\<close>

theorem render_interpolates_witness:
  "initialized example_forward \<and> list_all bounded_slot (spine example_forward) \<and>
   list_all bounded_slot (spinePrevious example_forward) \<and> 1 < length (spine example_forward) \<and>
   list_all bounded_slot (spine example_body) \<and>
   length (spine example_body) = length (spine example_forward) \<and>
   render example_forward [] (Fin 0.5) = Inr (example_forward, strip_commands example_forward (Fin 0.5)) \<and>
   centerline example_forward (Fin 0) 1 = Some (Vector2 (Fin (- 0.14)) (Fin 0)) \<and>
   render (example_forward\<lparr>spine := spine example_body\<rparr>) [] (Fin 0) =
     Inr (example_forward\<lparr>spine := spine example_body\<rparr>, strip_commands example_forward (Fin 0))"
proof -
  have f: "list_all bounded_slot (spine example_forward)"
    "list_all bounded_slot (spinePrevious example_forward)" "1 < length (spine example_forward)"
    "list_all bounded_slot (spine example_body)"
    "length (spine example_body) = length (spine example_forward)"
    by (simp_all add: example_forward_def example_body_def bounded_slot_def)
  have a: "arr_get (spinePrevious example_forward) 1 = Some (Vector2 (Fin (- 0.14)) (Fin 0))"
    by (simp add: example_forward_def example_body_def arr_get_def)
  have r: "render example_forward [] (Fin 0.5) = Inr (example_forward, strip_commands example_forward (Fin 0.5))"
    by (rule render_total [OF forward_initialized, of "[]", simplified])
  show ?thesis
    using render_interpolates [of example_forward "[]" "Fin 0.5" example_forward
        "strip_commands example_forward (Fin 0.5)" 1 "spine example_body"]
      forward_initialized f a r
    by simp
qed

lemma backward_initialized: "initialized example_backward"
  by (simp add: initialized_def example_backward_def example_body_def)

lemma backward_strip:
  "strip_commands example_backward (Fin 0) =
     [CutStrip (Fin 0) (Fin 0) (Some (Fin 0.125)) (Fin 0.5),
      DrawStrip (Fin (- 0.14)) (Fin (- 0.05)) (Some (Fin 0.5)) (Fin 0.125),
      DrawStrip (Fin (- 0.14)) (Fin 0.05) (Some (Fin 0.5)) (Fin 0.875),
      DrawStrip NaN NaN (Some (Fin 0.875)) NaN,
      DrawStrip NaN NaN (Some (Fin 0.875)) NaN]"
  by (simp add: strip_commands_def segment_commands_def centerline_def arr_get_def num_at_def
      example_backward_def example_body_def Let_def upt_rec)

lemma backward_previous_strip:
  "strip_commands (example_backward\<lparr>spine := spinePrevious example_backward\<rparr>) (Fin 0) =
     [CutStrip (Fin 0) (Fin 0) (Some (Fin 0.125)) (Fin 0.5),
      DrawStrip (Fin (- 0.14)) (Fin (- 0.05)) (Some (Fin 0.5)) (Fin 0.125),
      DrawStrip (Fin (- 0.14)) (Fin 0.05) (Some (Fin 0.5)) (Fin 0.875),
      DrawStrip (Fin (- 0.28)) (Fin (- 0.05)) (Some (Fin 0.875)) NaN,
      DrawStrip (Fin (- 0.28)) (Fin 0.05) (Some (Fin 0.875)) NaN]"
  by (simp add: strip_commands_def segment_commands_def centerline_def arr_get_def num_at_def
      example_backward_def example_body_def Let_def upt_rec)

text \<open>
  C10 (as stated): after the update that moved the head onto segment 1, \<open>spinePrevious\<close> is
  finite and \<open>spine[2]\<close> is \<open>(NaN, NaN)\<close>; at \<open>time = 0\<close> the vertices of segment 2 are NaN,
  since \<open>(NaN - p) * 0\<close> is NaN, while the same body with the previous snapshot as its
  current spine gives finite vertices. The output at \<open>time = 0\<close> is not a function of
  \<open>spinePrevious\<close> alone.
\<close>

theorem render_interpolates_counterexample:
  "spinePrevious example_backward =
     [Some (Vector2 (Fin 0) (Fin 0)), Some (Vector2 (Fin (- 0.14)) (Fin 0)),
      Some (Vector2 (Fin (- 0.28)) (Fin 0))] \<and>
   render example_backward [] (Fin 0) =
     Inr (example_backward,
       [CutStrip (Fin 0) (Fin 0) (Some (Fin 0.125)) (Fin 0.5),
        DrawStrip (Fin (- 0.14)) (Fin (- 0.05)) (Some (Fin 0.5)) (Fin 0.125),
        DrawStrip (Fin (- 0.14)) (Fin 0.05) (Some (Fin 0.5)) (Fin 0.875),
        DrawStrip NaN NaN (Some (Fin 0.875)) NaN,
        DrawStrip NaN NaN (Some (Fin 0.875)) NaN]) \<and>
   render (example_backward\<lparr>spine := spinePrevious example_backward\<rparr>) [] (Fin 0) =
     Inr (example_backward\<lparr>spine := spinePrevious example_backward\<rparr>,
       [CutStrip (Fin 0) (Fin 0) (Some (Fin 0.125)) (Fin 0.5),
        DrawStrip (Fin (- 0.14)) (Fin (- 0.05)) (Some (Fin 0.5)) (Fin 0.125),
        DrawStrip (Fin (- 0.14)) (Fin 0.05) (Some (Fin 0.5)) (Fin 0.875),
        DrawStrip (Fin (- 0.28)) (Fin (- 0.05)) (Some (Fin 0.875)) NaN,
        DrawStrip (Fin (- 0.28)) (Fin 0.05) (Some (Fin 0.875)) NaN])"
proof -
  have i: "initialized (example_backward\<lparr>spine := spinePrevious example_backward\<rparr>)"
    by (simp add: initialized_def example_backward_def example_body_def)
  have p: "spinePrevious example_backward =
     [Some (Vector2 (Fin 0) (Fin 0)), Some (Vector2 (Fin (- 0.14)) (Fin 0)),
      Some (Vector2 (Fin (- 0.28)) (Fin 0))]"
    by (simp add: example_backward_def example_body_def)
  show ?thesis
    using render_total [OF backward_initialized, of "[]" "Fin 0"] render_total [OF i, of "[]" "Fin 0"] p
    unfolding backward_strip backward_previous_strip by simp
qed

lemma update_phase_value:
  "phase (update_phase b speed) =
     (if phase b + SWIM_SPEED * speed > Math_PI * Fin 2
      then phase b + SWIM_SPEED * speed - Math_PI * Fin 2
      else phase b + SWIM_SPEED * speed)"
  by (simp add: update_phase_def Let_def)

lemma update_phase_result:
  assumes "update angle b head direction speed = Inr b'"
  shows "phase b' =
     (if phase b + SWIM_SPEED * speed > Math_PI * Fin 2
      then phase b + SWIM_SPEED * speed - Math_PI * Fin 2
      else phase b + SWIM_SPEED * speed)"
proof -
  from update_frame [OF assms] obtain sp spp where
    "b' = update_phase (b\<lparr>spinePrevious := spp, spine := sp\<rparr>) speed" by blast
  then show ?thesis by (simp add: update_phase_value)
qed

lemma between_Fin: "Fin 0 \<le> a \<Longrightarrow> a \<le> Fin c \<Longrightarrow> \<exists>x. a = Fin x \<and> 0 \<le> x \<and> x \<le> c"
  by (cases a) auto

lemma update_phase_in_turn:
  assumes "phase_in_turn b" and "Fin 0 \<le> speed" and "SWIM_SPEED * speed \<le> Math_PI * Fin 2"
    and "update angle b head direction speed = Inr b'"
  shows "phase_in_turn b'"
proof -
  from assms(1) obtain ph where ph: "phase b = Fin ph" "0 \<le> ph" "ph \<le> 2 * pi"
    using between_Fin [of "phase b" "pi * 2"] by (auto simp: phase_in_turn_def Math_PI_def)
  from assms(2,3) obtain s where s: "speed = Fin s" "0 \<le> s" "6.5 * s \<le> 2 * pi"
    by (cases speed) (auto simp: SWIM_SPEED_def Math_PI_def split: if_splits)
  show ?thesis
    using update_phase_result [OF assms(4)] ph s
    by (auto simp: phase_in_turn_def SWIM_SPEED_def Math_PI_def)
qed

lemma run_calls_phase:
  assumes "run_calls angle calls (b, r) = Inr (b', r')" and "phase_in_turn b"
    and "list_all speed_within_turn calls"
  shows "phase_in_turn b'"
  using assms
proof (induction calls arbitrary: b r)
  case Nil
  then show ?case by simp
next
  case (Cons c calls)
  show ?case
  proof (cases c)
    case (CallUpdate head direction speed)
    with Cons.prems(1) obtain b1 where b1: "update angle b head direction speed = Inr b1"
      "run_calls angle calls (b1, r) = Inr (b', r')"
      by (auto split: sum.splits)
    have "phase_in_turn b1"
      using update_phase_in_turn [OF Cons.prems(2) _ _ b1(1)] Cons.prems(3) CallUpdate by simp
    then show ?thesis using Cons.IH [OF b1(2)] Cons.prems(3) by simp
  next
    case (CallRender time)
    with Cons.prems(1) obtain b1 r1 where b1: "render b r time = Inr (b1, r1)"
      "run_calls angle calls (b1, r1) = Inr (b', r')"
      by (auto split: sum.splits)
    have "b1 = b" using render_closed [OF b1(1)] by simp
    then show ?thesis using Cons.IH [OF b1(2)] Cons.prems(2,3) by simp
  qed
qed

text \<open>
  C4 (as amended): every update that returns adds \<open>SWIM_SPEED * speed\<close> to the phase and
  subtracts \<open>2\<pi>\<close> once if the sum exceeds \<open>2\<pi>\<close>. If the phase is in the closed interval
  \<open>[0, 2\<pi>]\<close> and \<open>0 \<le> SWIM_SPEED * speed \<le> 2\<pi>\<close>, the phase is in \<open>[0, 2\<pi>]\<close> after the update,
  and so it is after every sequence of updates with such speeds and of renders.
\<close>

theorem phase_stays_in_turn:
  "(update angle b head direction speed = Inr b' \<longrightarrow>
      phase b' =
        (if phase b + SWIM_SPEED * speed > Math_PI * Fin 2
         then phase b + SWIM_SPEED * speed - Math_PI * Fin 2
         else phase b + SWIM_SPEED * speed)) \<and>
   (phase_in_turn b \<and> Fin 0 \<le> speed \<and> SWIM_SPEED * speed \<le> Math_PI * Fin 2 \<and>
    update angle b head direction speed = Inr b' \<longrightarrow> phase_in_turn b') \<and>
   (phase_in_turn b \<and> list_all speed_within_turn calls \<and>
    run_calls angle calls (b, r) = Inr (b', r') \<longrightarrow> phase_in_turn b')"
proof (intro conjI impI)
  assume "update angle b head direction speed = Inr b'"
  then show "phase b' =
        (if phase b + SWIM_SPEED * speed > Math_PI * Fin 2
         then phase b + SWIM_SPEED * speed - Math_PI * Fin 2
         else phase b + SWIM_SPEED * speed)"
    by (rule update_phase_result)
next
  assume "phase_in_turn b \<and> Fin 0 \<le> speed \<and> SWIM_SPEED * speed \<le> Math_PI * Fin 2 \<and>
    update angle b head direction speed = Inr b'"
  then show "phase_in_turn b'" using update_phase_in_turn by blast
next
  assume "phase_in_turn b \<and> list_all speed_within_turn calls \<and>
    run_calls angle calls (b, r) = Inr (b', r')"
  then show "phase_in_turn b'" using run_calls_phase by blast
qed

lemma example_update_total:
  "\<exists>sp. update example_angle example_body head direction speed =
     Inr (update_phase (example_body\<lparr>spinePrevious := spine example_body, spine := sp\<rparr>) speed)"
  using update_total [OF example_initialized] by blast

text \<open>
  C4 (as stated): from phase 0, one update with speed 3 leaves the phase at
  \<open>19.5 - 2\<pi>\<close>, which is above \<open>2\<pi>\<close> (a single subtraction, not a remainder), and one update
  with speed \<open>2\<pi> / 6.5\<close> leaves it at \<open>2\<pi>\<close> itself (the comparison is strict).
\<close>

theorem phase_wrap_counterexample:
  "phase example_body = Fin 0 \<and>
   \<not> isl (update example_angle example_body (Vector2 (Fin 0.07) (Fin 0)) (Vector2 (Fin 1) (Fin 0)) (Fin 3)) \<and>
   phase (projr (update example_angle example_body (Vector2 (Fin 0.07) (Fin 0))
     (Vector2 (Fin 1) (Fin 0)) (Fin 3))) = Fin (19.5 - 2 * pi) \<and>
   \<not> phase (projr (update example_angle example_body (Vector2 (Fin 0.07) (Fin 0))
     (Vector2 (Fin 1) (Fin 0)) (Fin 3))) < Math_PI * Fin 2 \<and>
   \<not> isl (update example_angle example_body (Vector2 (Fin 0.07) (Fin 0)) (Vector2 (Fin 1) (Fin 0))
     (Fin (2 * pi / 6.5))) \<and>
   phase (projr (update example_angle example_body (Vector2 (Fin 0.07) (Fin 0))
     (Vector2 (Fin 1) (Fin 0)) (Fin (2 * pi / 6.5)))) = Math_PI * Fin 2 \<and>
   \<not> phase (projr (update example_angle example_body (Vector2 (Fin 0.07) (Fin 0))
     (Vector2 (Fin 1) (Fin 0)) (Fin (2 * pi / 6.5)))) < Math_PI * Fin 2"
proof -
  have p0: "phase example_body = Fin 0" by (simp add: example_body_def)
  obtain sp where a: "update example_angle example_body (Vector2 (Fin 0.07) (Fin 0))
      (Vector2 (Fin 1) (Fin 0)) (Fin 3) =
     Inr (update_phase (example_body\<lparr>spinePrevious := spine example_body, spine := sp\<rparr>) (Fin 3))"
    using example_update_total by blast
  obtain sp2 where b: "update example_angle example_body (Vector2 (Fin 0.07) (Fin 0))
      (Vector2 (Fin 1) (Fin 0)) (Fin (2 * pi / 6.5)) =
     Inr (update_phase (example_body\<lparr>spinePrevious := spine example_body, spine := sp2\<rparr>)
       (Fin (2 * pi / 6.5)))"
    using example_update_total by blast
  have pa: "phase (update_phase (example_body\<lparr>spinePrevious := spine example_body, spine := sp\<rparr>) (Fin 3))
      = Fin (19.5 - 2 * pi)"
    using pi_less_4 by (simp add: update_phase_value p0 SWIM_SPEED_def Math_PI_def)
  have pb: "phase (update_phase (example_body\<lparr>spinePrevious := spine example_body, spine := sp2\<rparr>)
      (Fin (2 * pi / 6.5))) = Math_PI * Fin 2"
    by (simp add: update_phase_value p0 SWIM_SPEED_def Math_PI_def)
  have "\<not> Fin (19.5 - 2 * pi) < Math_PI * Fin 2"
    using pi_less_4 by (simp add: Math_PI_def)
  moreover have "\<not> Math_PI * Fin 2 < Math_PI * Fin 2" by (simp add: Math_PI_def)
  ultimately show ?thesis unfolding a b using p0 pa pb by simp
qed

text \<open>
  C4, an instance: the forward move of the example body at speed 0.02, which takes the
  phase from 0 to 0.13.
\<close>

theorem phase_stays_in_turn_witness:
  "phase_in_turn example_body \<and> Fin 0 \<le> Fin 0.02 \<and> SWIM_SPEED * Fin 0.02 \<le> Math_PI * Fin 2 \<and>
   list_all speed_within_turn
     [CallUpdate (Vector2 (Fin 0.07) (Fin 0)) (Vector2 (Fin 1) (Fin 0)) (Fin 0.02), CallRender (Fin 0.5)] \<and>
   update example_angle example_body (Vector2 (Fin 0.07) (Fin 0)) (Vector2 (Fin 1) (Fin 0)) (Fin 0.02)
     = Inr example_forward \<and>
   run_calls example_angle
     [CallUpdate (Vector2 (Fin 0.07) (Fin 0)) (Vector2 (Fin 1) (Fin 0)) (Fin 0.02), CallRender (Fin 0.5)]
     (example_body, []) = Inr (example_forward, strip_commands example_forward (Fin 0.5)) \<and>
   phase example_forward = Fin 0.13 \<and> phase_in_turn example_forward"
proof -
  have h: "phase_in_turn example_body" "Fin 0 \<le> Fin 0.02" "SWIM_SPEED * Fin 0.02 \<le> Math_PI * Fin 2"
    using pi_ge_two by (simp_all add: phase_in_turn_def example_body_def SWIM_SPEED_def Math_PI_def)
  have l: "list_all speed_within_turn
     [CallUpdate (Vector2 (Fin 0.07) (Fin 0)) (Vector2 (Fin 1) (Fin 0)) (Fin 0.02), CallRender (Fin 0.5)]"
    using h by simp
  have r: "run_calls example_angle
     [CallUpdate (Vector2 (Fin 0.07) (Fin 0)) (Vector2 (Fin 1) (Fin 0)) (Fin 0.02), CallRender (Fin 0.5)]
     (example_body, []) = Inr (example_forward, strip_commands example_forward (Fin 0.5))"
    using forward_update render_total [OF forward_initialized, of "[]" "Fin 0.5"]
    by simp
  have p: "phase example_forward = Fin 0.13" by (simp add: example_forward_def)
  show ?thesis
    using phase_stays_in_turn [of example_angle example_body "Vector2 (Fin 0.07) (Fin 0)"
        "Vector2 (Fin 1) (Fin 0)" "Fin 0.02" example_forward
        "[CallUpdate (Vector2 (Fin 0.07) (Fin 0)) (Vector2 (Fin 1) (Fin 0)) (Fin 0.02), CallRender (Fin 0.5)]"
        "[]" "strip_commands example_forward (Fin 0.5)"]
      h l r p forward_update
    by blast
qed

lemma update_begin_result:
  assumes "update_begin angle b head direction speed = Inr st"
  shows "\<exists>spp. st = (b\<lparr>spinePrevious := spp, spine := (spine b)[0 := Some head]\<rparr>,
            Math_cos (angle direction + Math_PI +
              Math_cos (phase b) * (speed - SPEED_THRESHOLD) * SWIM_AMPLITUDE),
            Math_sin (angle direction + Math_PI +
              Math_cos (phase b) * (speed - SPEED_THRESHOLD) * SWIM_AMPLITUDE))"
proof -
  from assms obtain b1 where b1: "storePreviousState b = Inr b1"
    and st: "st = (b1\<lparr>spine := (spine b1)[0 := Some head]\<rparr>,
            Math_cos (angle direction + Math_PI +
              Math_cos (phase b1) * (speed - SPEED_THRESHOLD) * SWIM_AMPLITUDE),
            Math_sin (angle direction + Math_PI +
              Math_cos (phase b1) * (speed - SPEED_THRESHOLD) * SWIM_AMPLITUDE))"
    by (auto simp: update_begin_def Let_def split: sum.splits option.splits)
  from storePreviousState_frame [OF b1] obtain spp where "b1 = b\<lparr>spinePrevious := spp\<rparr>"
    by blast
  with st have "st = (b\<lparr>spinePrevious := spp, spine := (spine b)[0 := Some head]\<rparr>,
            Math_cos (angle direction + Math_PI +
              Math_cos (phase b) * (speed - SPEED_THRESHOLD) * SWIM_AMPLITUDE),
            Math_sin (angle direction + Math_PI +
              Math_cos (phase b) * (speed - SPEED_THRESHOLD) * SWIM_AMPLITUDE))"
    by simp
  then show ?thesis by (rule exI)
qed

lemma first_pass: "2 \<le> n \<Longrightarrow> [1..<n] = 1 # [2..<n]"
  by (simp add: upt_conv_Cons numeral_2_eq_2)

text \<open>
  C5: the statements of \<open>update\<close> before the loop leave \<open>(xDir, yDir) = (cos a, sin a)\<close> with
  \<open>a = direction.angle() + \<pi> + cos(phase) * (speed - 0.02) * 8.5\<close>, \<open>phase\<close> being the phase
  at the call; with at least two segments the first pass of the loop, for segment 1, starts
  from this direction. For a speed below 0.02 the factor \<open>speed - 0.02\<close> is negative, so
  the oscillation term has the sign opposite to \<open>cos(phase)\<close> instead of vanishing.
\<close>

theorem update_initial_direction:
  "(update_begin angle b head direction speed = Inr (b2, xDir, yDir) \<longrightarrow>
      xDir = Math_cos (angle direction + Math_PI + Math_cos (phase b) * (speed - Fin 0.02) * Fin 8.5) \<and>
      yDir = Math_sin (angle direction + Math_PI + Math_cos (phase b) * (speed - Fin 0.02) * Fin 8.5) \<and>
      (2 \<le> length (spine b) \<longrightarrow>
         update angle b head direction speed =
           (case update_segment 1 (b2, xDir, yDir) of
              Inl e \<Rightarrow> Inl e
            | Inr st1 \<Rightarrow>
                (case for_loop update_segment [2..<length (spine b)] st1 of
                   Inl e \<Rightarrow> Inl e
                 | Inr (b3, xDir', yDir') \<Rightarrow> Inr (update_phase b3 speed))))) \<and>
   (s < 0.02 \<longrightarrow>
      Fin s - SPEED_THRESHOLD = Fin (s - 0.02) \<and> s - 0.02 < 0 \<and>
      Math_cos (Fin ph) * (Fin s - SPEED_THRESHOLD) * SWIM_AMPLITUDE = Fin (cos ph * (s - 0.02) * 8.5) \<and>
      (0 < cos ph \<longrightarrow> cos ph * (s - 0.02) * 8.5 < 0) \<and>
      (cos ph < 0 \<longrightarrow> 0 < cos ph * (s - 0.02) * 8.5))"
proof -
  have A: "xDir = Math_cos (angle direction + Math_PI + Math_cos (phase b) * (speed - Fin 0.02) * Fin 8.5) \<and>
      yDir = Math_sin (angle direction + Math_PI + Math_cos (phase b) * (speed - Fin 0.02) * Fin 8.5) \<and>
      (2 \<le> length (spine b) \<longrightarrow>
         update angle b head direction speed =
           (case update_segment 1 (b2, xDir, yDir) of
              Inl e \<Rightarrow> Inl e
            | Inr st1 \<Rightarrow>
                (case for_loop update_segment [2..<length (spine b)] st1 of
                   Inl e \<Rightarrow> Inl e
                 | Inr (b3, xDir', yDir') \<Rightarrow> Inr (update_phase b3 speed))))"
    if ub: "update_begin angle b head direction speed = Inr (b2, xDir, yDir)"
  proof -
    from update_begin_result [OF ub] obtain spp where
      st: "b2 = b\<lparr>spinePrevious := spp, spine := (spine b)[0 := Some head]\<rparr>"
        "xDir = Math_cos (angle direction + Math_PI +
              Math_cos (phase b) * (speed - SPEED_THRESHOLD) * SWIM_AMPLITUDE)"
        "yDir = Math_sin (angle direction + Math_PI +
              Math_cos (phase b) * (speed - SPEED_THRESHOLD) * SWIM_AMPLITUDE)"
      by blast
    have len: "length (spine b2) = length (spine b)" using st(1) by simp
    have "update angle b head direction speed =
           (case update_segment 1 (b2, xDir, yDir) of
              Inl e \<Rightarrow> Inl e
            | Inr st1 \<Rightarrow>
                (case for_loop update_segment [2..<length (spine b)] st1 of
                   Inl e \<Rightarrow> Inl e
                 | Inr (b3, xDir', yDir') \<Rightarrow> Inr (update_phase b3 speed)))"
      if "2 \<le> length (spine b)"
      unfolding update_def ub sum.case fst_conv len first_pass [OF that]
      by (simp split: sum.splits)
    then show ?thesis using st(2,3) by (simp add: SPEED_THRESHOLD_def SWIM_AMPLITUDE_def)
  qed
  have B: "Fin s - SPEED_THRESHOLD = Fin (s - 0.02) \<and> s - 0.02 < 0 \<and>
      Math_cos (Fin ph) * (Fin s - SPEED_THRESHOLD) * SWIM_AMPLITUDE = Fin (cos ph * (s - 0.02) * 8.5) \<and>
      (0 < cos ph \<longrightarrow> cos ph * (s - 0.02) * 8.5 < 0) \<and>
      (cos ph < 0 \<longrightarrow> 0 < cos ph * (s - 0.02) * 8.5)"
    if "s < 0.02"
    using that by (simp add: SPEED_THRESHOLD_def SWIM_AMPLITUDE_def mult_less_0_iff zero_less_mult_iff)
  show ?thesis using A B by blast
qed

text \<open>
  C5, an instance: the example body at speed 0.01 and phase 0, where the oscillation
  term is \<open>-0.085\<close>.
\<close>

theorem update_initial_direction_witness:
  "update_begin example_angle example_body (Vector2 (Fin 0.07) (Fin 0)) (Vector2 (Fin 1) (Fin 0)) (Fin 0.01)
     = Inr (example_body\<lparr>spine := (spine example_body)[0 := Some (Vector2 (Fin 0.07) (Fin 0))]\<rparr>,
            Math_cos (Fin (pi - 0.085)), Math_sin (Fin (pi - 0.085))) \<and>
   2 \<le> length (spine example_body) \<and> (0.01 :: real) < 0.02 \<and> 0 < cos (0 :: real) \<and>
   Math_cos (Fin 0) * (Fin 0.01 - SPEED_THRESHOLD) * SWIM_AMPLITUDE = Fin (- 0.085) \<and>
   update example_angle example_body (Vector2 (Fin 0.07) (Fin 0)) (Vector2 (Fin 1) (Fin 0)) (Fin 0.01) =
     (case update_segment 1
        (example_body\<lparr>spine := (spine example_body)[0 := Some (Vector2 (Fin 0.07) (Fin 0))]\<rparr>,
         Math_cos (Fin (pi - 0.085)), Math_sin (Fin (pi - 0.085))) of
        Inl e \<Rightarrow> Inl e
      | Inr st1 \<Rightarrow>
          (case for_loop update_segment [2..<length (spine example_body)] st1 of
             Inl e \<Rightarrow> Inl e
           | Inr (b3, xDir', yDir') \<Rightarrow> Inr (update_phase b3 (Fin 0.01))))"
proof -
  have ub: "update_begin example_angle example_body (Vector2 (Fin 0.07) (Fin 0)) (Vector2 (Fin 1) (Fin 0)) (Fin 0.01)
     = Inr (example_body\<lparr>spine := (spine example_body)[0 := Some (Vector2 (Fin 0.07) (Fin 0))]\<rparr>,
            Math_cos (Fin (pi - 0.085)), Math_sin (Fin (pi - 0.085)))"
    by (simp add: update_begin_initialized [OF example_initialized] example_angle_def
        SPEED_THRESHOLD_def SWIM_AMPLITUDE_def Math_PI_def)
       (simp add: example_body_def)
  have l: "2 \<le> length (spine example_body)" by (simp add: example_body_def)
  have c1: "update example_angle example_body (Vector2 (Fin 0.07) (Fin 0)) (Vector2 (Fin 1) (Fin 0)) (Fin 0.01) =
     (case update_segment 1
        (example_body\<lparr>spine := (spine example_body)[0 := Some (Vector2 (Fin 0.07) (Fin 0))]\<rparr>,
         Math_cos (Fin (pi - 0.085)), Math_sin (Fin (pi - 0.085))) of
        Inl e \<Rightarrow> Inl e
      | Inr st1 \<Rightarrow>
          (case for_loop update_segment [2..<length (spine example_body)] st1 of
             Inl e \<Rightarrow> Inl e
           | Inr (b3, xDir', yDir') \<Rightarrow> Inr (update_phase b3 (Fin 0.01))))"
    using update_initial_direction [of example_angle example_body "Vector2 (Fin 0.07) (Fin 0)"
        "Vector2 (Fin 1) (Fin 0)" "Fin 0.01"
        "example_body\<lparr>spine := (spine example_body)[0 := Some (Vector2 (Fin 0.07) (Fin 0))]\<rparr>"
        "Math_cos (Fin (pi - 0.085))" "Math_sin (Fin (pi - 0.085))" "0.01" 0] ub l
    by blast
  have c2: "Math_cos (Fin 0) * (Fin 0.01 - SPEED_THRESHOLD) * SWIM_AMPLITUDE = Fin (- 0.085)"
    by (simp add: SPEED_THRESHOLD_def SWIM_AMPLITUDE_def)
  show ?thesis
    by (intro conjI; (rule ub l c1 c2 | simp))
qed

lemma new_Array_result:
  "new_Array a = Inr n \<Longrightarrow> a = Fin (real n)"
  by (cases a) (auto simp: new_Array_def split: if_splits)

lemma Body_result:
  assumes "Body pat atlasPixel len thickness = Inr b"
  shows "\<exists>l n. len = Fin l \<and> 0 < l \<and> n = nat (\<lceil>l / 0.14\<rceil> + 1) \<and> 2 \<le> n \<and>
           Fin (real n) = Math_ceil (len / RESOLUTION) + Fin 1 \<and>
           spine b = replicate n None \<and> spinePrevious b = replicate n None \<and>
           spacing b = len / (Fin (real n) - Fin 1) \<and>
           spacing b = Fin (l / (real n - 1)) \<and> Fin 0 < spacing b"
proof -
  from assms obtain n where n: "new_Array (Math_ceil (len / RESOLUTION) + Fin 1) = Inr n"
    by (auto simp: Body_def split: sum.splits)
  from assms n obtain springs0 vRadii0 where
    v: "makeVRadii pat n atlasPixel = Inr vRadii0"
    and b: "b = \<lparr>pattern = pat, spine = replicate n None, spinePrevious = replicate n None,
              spacing = len / (Fin (real n) - Fin 1),
              inverseSpacing = Fin 1 / (len / (Fin (real n) - Fin 1)),
              radii = makeRadii n thickness (Fin 0.6), springs = springs0,
              u = makeU pat n atlasPixel,
              vCenter = vy (slot pat) + vy (sizeP pat) * Fin 0.5,
              vRadii = vRadii0, phase = Fin 0\<rparr>"
    by (auto simp: Body_def Let_def split: sum.splits)
  from new_Array_result [OF n] have c: "Math_ceil (len / RESOLUTION) + Fin 1 = Fin (real n)" .
  then obtain l where l: "len = Fin l"
    by (cases len) (auto simp: RESOLUTION_def)
  from c l have rn: "real n = of_int \<lceil>l / 0.14\<rceil> + 1"
    by (simp add: RESOLUTION_def)
  then have "real n = of_int (\<lceil>l / 0.14\<rceil> + 1)" by simp
  then have "int n = \<lceil>l / 0.14\<rceil> + 1" using of_int_eq_iff [where 'a = real] 
    by (metis of_int_of_nat_eq)
  then have n_eq: "n = nat (\<lceil>l / 0.14\<rceil> + 1)" by simp
  from v obtain m where "new_Array (Fin (real n) - Fin 2) = Inr m"
    by (auto simp: makeVRadii_def split: sum.splits)
  then have n2: "2 \<le> n" by (auto simp: new_Array_def split: if_splits)
  then have "1 \<le> \<lceil>l / 0.14\<rceil>" using \<open>int n = \<lceil>l / 0.14\<rceil> + 1\<close> by linarith
  then have "0 < \<lceil>l / 0.14\<rceil>" by linarith
  then have "0 < l / 0.14" by (simp only: zero_less_ceiling)
  then have l0: "0 < l" by simp
  have sp: "spacing b = Fin (l / (real n - 1))" using b l n2 by simp
  have "0 < l / (real n - 1)" using l0 n2 by simp
  then have "Fin 0 < spacing b" using sp by simp
  with b l l0 n_eq n2 c sp show ?thesis by simp
qed

lemma initializeSpine_loop:
  assumes "xs = [k..<length (spine t)]" and "1 \<le> k"
    and "length (spinePrevious t) = length (spine t)"
    and "\<forall>i<k. spine t ! i \<noteq> None \<and> spinePrevious t ! i \<noteq> None"
  shows "\<exists>sp spp. for_loop (initializeSpine_segment d) xs t = Inr (t\<lparr>spine := sp, spinePrevious := spp\<rparr>) \<and>
           length sp = length (spine t) \<and> length spp = length (spine t) \<and>
           (\<forall>i<length (spine t). sp ! i \<noteq> None \<and> spp ! i \<noteq> None)"
  using assms
proof (induction xs arbitrary: k t)
  case Nil
  from Nil.prems(1) [symmetric] have "length (spine t) \<le> k" by auto
  with Nil.prems have "for_loop (initializeSpine_segment d) [] t =
      Inr (t\<lparr>spine := spine t, spinePrevious := spinePrevious t\<rparr>) \<and>
      length (spine t) = length (spine t) \<and> length (spinePrevious t) = length (spine t) \<and>
      (\<forall>i<length (spine t). spine t ! i \<noteq> None \<and> spinePrevious t ! i \<noteq> None)"
    by auto
  then show ?case by blast
next
  case (Cons a xs)
  from Cons.prems(1) [symmetric]
  have k: "a = k" "xs = [Suc k..<length (spine t)]" "k < length (spine t)"
    by (auto simp: upt_eq_Cons_conv)
  have "k - 1 < k" using Cons.prems(2) by simp
  then have "spine t ! (k - 1) \<noteq> None" using Cons.prems(4) by blast
  moreover have "k - 1 < length (spine t)" using k(3) by simp
  ultimately obtain p where p: "arr_get (spine t) (k - 1) = Some p"
    by (auto simp: arr_get_def)
  define v where "v = Vector2 (vx p - vx d * spacing t) (vy p - vy d * spacing t)"
  let ?t1 = "t\<lparr>spine := (spine t)[k := Some v], spinePrevious := (spinePrevious t)[k := Some v]\<rparr>"
  have st: "initializeSpine_segment d k t = Inr ?t1"
    using p k(3) Cons.prems(3) by (simp add: initializeSpine_segment_def Let_def arr_set_def v_def)
  have a1: "xs = [Suc k..<length (spine ?t1)]" using k(2) by simp
  have a3: "length (spinePrevious ?t1) = length (spine ?t1)" using Cons.prems(3) by simp
  have a4: "\<forall>i<Suc k. spine ?t1 ! i \<noteq> None \<and> spinePrevious ?t1 ! i \<noteq> None"
    using Cons.prems(3,4) k(3) by (auto simp: nth_list_update less_Suc_eq)
  from Cons.IH [OF a1 _ a3 a4]
  obtain sp spp where r:
    "for_loop (initializeSpine_segment d) xs ?t1 = Inr (?t1\<lparr>spine := sp, spinePrevious := spp\<rparr>)"
    "length sp = length (spine ?t1)" "length spp = length (spine ?t1)"
    "\<forall>i<length (spine ?t1). sp ! i \<noteq> None \<and> spp ! i \<noteq> None"
    by auto
  have "for_loop (initializeSpine_segment d) (a # xs) t = Inr (t\<lparr>spine := sp, spinePrevious := spp\<rparr>)"
    using st r(1) k(1) by simp
  then show ?case using r(2,3,4) by auto
qed

lemma no_empty_slot: "(\<forall>i<length xs. xs ! i \<noteq> None) \<Longrightarrow> None \<notin> set xs"
  by (metis in_set_conv_nth)

lemma initializeSpine_total:
  assumes "length (spinePrevious b) = length (spine b)" and "0 < length (spine b)"
  shows "\<exists>sp spp. initializeSpine b head direction = Inr (b\<lparr>spine := sp, spinePrevious := spp\<rparr>) \<and>
           length sp = length (spine b) \<and> length spp = length (spine b) \<and>
           initialized (b\<lparr>spine := sp, spinePrevious := spp\<rparr>)"
proof -
  let ?b0 = "b\<lparr>spine := (spine b)[0 := Some head], spinePrevious := (spinePrevious b)[0 := Some head]\<rparr>"
  have b0: "b\<lparr>spine := arr_set (spine b) 0 head, spinePrevious := arr_set (spinePrevious b) 0 head\<rparr> = ?b0"
    using assms by (simp add: arr_set_def)
  have a4: "\<forall>i<1. spine ?b0 ! i \<noteq> None \<and> spinePrevious ?b0 ! i \<noteq> None"
    using assms by simp
  from initializeSpine_loop [OF refl _ _ a4, of direction]
  obtain sp spp where r:
    "for_loop (initializeSpine_segment direction) [1..<length (spine ?b0)] ?b0 =
       Inr (?b0\<lparr>spine := sp, spinePrevious := spp\<rparr>)"
    "length sp = length (spine ?b0)" "length spp = length (spine ?b0)"
    "\<forall>i<length (spine ?b0). sp ! i \<noteq> None \<and> spp ! i \<noteq> None"
    using assms(1) by auto
  have "initializeSpine b head direction = Inr (b\<lparr>spine := sp, spinePrevious := spp\<rparr>)"
    unfolding initializeSpine_def Let_def b0 using r(1) by simp
  moreover have "initialized (b\<lparr>spine := sp, spinePrevious := spp\<rparr>)"
    using r(2,3,4) assms(2) no_empty_slot [of sp] no_empty_slot [of spp]
    by (simp add: initialized_def)
  ultimately show ?thesis using r(2,3) by auto
qed

lemma run_calls_frame:
  assumes "run_calls angle calls (b, r) = Inr (b', r')"
  shows "length (spine b') = length (spine b) \<and> length (spinePrevious b') = length (spinePrevious b) \<and>
         spacing b' = spacing b"
  using assms
proof (induction calls arbitrary: b r)
  case Nil
  then show ?case by simp
next
  case (Cons c calls)
  show ?case
  proof (cases c)
    case (CallUpdate head direction speed)
    with Cons.prems obtain b1 where b1: "update angle b head direction speed = Inr b1"
      "run_calls angle calls (b1, r) = Inr (b', r')"
      by (auto split: sum.splits)
    from update_frame [OF b1(1)] obtain sp spp where
      "b1 = update_phase (b\<lparr>spinePrevious := spp, spine := sp\<rparr>) speed"
      "length sp = length (spine b)" "length spp = length (spinePrevious b)" by blast
    then have "length (spine b1) = length (spine b) \<and>
        length (spinePrevious b1) = length (spinePrevious b) \<and> spacing b1 = spacing b"
      by simp
    then show ?thesis using Cons.IH [OF b1(2)] by simp
  next
    case (CallRender time)
    with Cons.prems obtain b1 r1 where b1: "render b r time = Inr (b1, r1)"
      "run_calls angle calls (b1, r1) = Inr (b', r')"
      by (auto split: sum.splits)
    have "b1 = b" using render_closed [OF b1(1)] by simp
    then show ?thesis using Cons.IH [OF b1(2)] by simp
  qed
qed

lemma run_calls_total:
  assumes "initialized b"
  shows "\<exists>b' r'. run_calls angle calls (b, r) = Inr (b', r') \<and> initialized b'"
  using assms
proof (induction calls arbitrary: b r)
  case Nil
  then show ?case by simp
next
  case (Cons c calls)
  show ?case
  proof (cases c)
    case (CallUpdate head direction speed)
    from update_total [OF Cons.prems, of angle head direction speed] obtain sp where
      u: "update angle b head direction speed =
            Inr (update_phase (b\<lparr>spinePrevious := spine b, spine := sp\<rparr>) speed)"
      "length sp = length (spine b)" "None \<notin> set sp" by blast
    have "initialized (update_phase (b\<lparr>spinePrevious := spine b, spine := sp\<rparr>) speed)"
      using u(2,3) Cons.prems by (simp add: initialized_def)
    from Cons.IH [OF this, of r] show ?thesis using u(1) CallUpdate by simp
  next
    case (CallRender time)
    from Cons.IH [OF Cons.prems, of "r @ strip_commands b time"]
    show ?thesis using render_total [OF Cons.prems, of r time] CallRender by simp
  qed
qed

text \<open>
  C9: a constructor call that returns was given a positive finite length \<open>L\<close>; the spine
  has \<open>N = ceil(L / 0.14) + 1\<close> slots, at least two, \<open>spinePrevious\<close> has as many, and
  \<open>spacing = L / (N - 1)\<close>, a positive number. \<open>initializeSpine\<close> on the new body returns an
  initialized body of the same segment count and spacing, and every sequence of \<open>update\<close> and
  \<open>render\<close> calls on it returns and leaves segment count and spacing as the constructor set
  them. The same holds for whatever sequence of calls returns on the body as constructed.
\<close>

theorem body_shape_is_fixed:
  assumes "Body pat atlasPixel len thickness = Inr b"
  shows "\<exists>l n. len = Fin l \<and> 0 < l \<and> n = nat (\<lceil>l / 0.14\<rceil> + 1) \<and> 2 \<le> n \<and>
           Fin (real n) = Math_ceil (len / RESOLUTION) + Fin 1 \<and>
           length (spine b) = n \<and> length (spinePrevious b) = n \<and>
           spacing b = len / (Fin (real n) - Fin 1) \<and>
           spacing b = Fin (l / (real n - 1)) \<and> Fin 0 < spacing b \<and>
           (\<forall>calls r b' r'. run_calls angle calls (b, r) = Inr (b', r') \<longrightarrow>
              length (spine b') = n \<and> length (spinePrevious b') = n \<and> spacing b' = spacing b) \<and>
           (\<forall>head direction. \<exists>b0.
              initializeSpine b head direction = Inr b0 \<and> initialized b0 \<and>
              length (spine b0) = n \<and> length (spinePrevious b0) = n \<and> spacing b0 = spacing b \<and>
              (\<forall>calls r. \<exists>b' r'.
                 run_calls angle calls (b0, r) = Inr (b', r') \<and>
                 length (spine b') = n \<and> length (spinePrevious b') = n \<and>
                 spacing b' = spacing b))"
proof -
  from Body_result [OF assms] obtain l n where c:
    "len = Fin l" "0 < l" "n = nat (\<lceil>l / 0.14\<rceil> + 1)" "2 \<le> n"
    "Fin (real n) = Math_ceil (len / RESOLUTION) + Fin 1"
    "spine b = replicate n None" "spinePrevious b = replicate n None"
    "spacing b = len / (Fin (real n) - Fin 1)"
    "spacing b = Fin (l / (real n - 1))" "Fin 0 < spacing b"
    by blast
  have len: "length (spine b) = n" "length (spinePrevious b) = n" using c(6,7) by simp_all
  have A: "length (spine b') = n \<and> length (spinePrevious b') = n \<and> spacing b' = spacing b"
    if "run_calls angle calls (b, r) = Inr (b', r')" for calls r b' r'
    using run_calls_frame [OF that] len by simp
  have B: "\<exists>b0. initializeSpine b head direction = Inr b0 \<and> initialized b0 \<and>
              length (spine b0) = n \<and> length (spinePrevious b0) = n \<and> spacing b0 = spacing b \<and>
              (\<forall>calls r. \<exists>b' r'.
                 run_calls angle calls (b0, r) = Inr (b', r') \<and>
                 length (spine b') = n \<and> length (spinePrevious b') = n \<and>
                 spacing b' = spacing b)" for head direction
  proof -
    from initializeSpine_total [of b head direction] len c(4)
    obtain sp spp where i:
      "initializeSpine b head direction = Inr (b\<lparr>spine := sp, spinePrevious := spp\<rparr>)"
      "length sp = n" "length spp = n" "initialized (b\<lparr>spine := sp, spinePrevious := spp\<rparr>)"
      by auto
    let ?b0 = "b\<lparr>spine := sp, spinePrevious := spp\<rparr>"
    have "\<exists>b' r'. run_calls angle calls (?b0, r) = Inr (b', r') \<and>
                 length (spine b') = n \<and> length (spinePrevious b') = n \<and>
                 spacing b' = spacing b" for calls r
    proof -
      from run_calls_total [OF i(4), of angle calls r] obtain b' r' where
        t: "run_calls angle calls (?b0, r) = Inr (b', r')" by blast
      from run_calls_frame [OF t] i(2,3) show ?thesis using t by simp
    qed
    then show ?thesis using i by simp
  qed
  show ?thesis using c(1-5) c(8-10) len A B by blast
qed

lemma example_constructed:
  "Body example_pattern example_pixel (Fin 0.28) (Fin 0.1) =
     Inr (example_body\<lparr>spine := [None, None, None], spinePrevious := [None, None, None]\<rparr>)"
  by (simp add: Body_def new_Array_def makeSprings_def makeVRadii_def makeRadii_def makeU_def
      RESOLUTION_def SPRING_START_def SPRING_END_def SPRING_POWER_def example_pattern_def
      example_pixel_def example_body_def Let_def upt_rec numeral_3_eq_3)

lemma example_spine_initialized:
  "initializeSpine (example_body\<lparr>spine := [None, None, None], spinePrevious := [None, None, None]\<rparr>)
     (Vector2 (Fin 0) (Fin 0)) (Vector2 (Fin 1) (Fin 0)) = Inr example_body"
  by (simp add: initializeSpine_def initializeSpine_segment_def arr_set_def arr_get_def
      example_body_def Let_def upt_rec)

text \<open>
  C9, an instance: length 0.28 gives three segments with spacing 0.14; the body is
  initialized at the origin along the x axis, updated once and rendered once.
\<close>

theorem body_shape_is_fixed_witness:
  "Body example_pattern example_pixel (Fin 0.28) (Fin 0.1) =
     Inr (example_body\<lparr>spine := [None, None, None], spinePrevious := [None, None, None]\<rparr>) \<and>
   initializeSpine (example_body\<lparr>spine := [None, None, None], spinePrevious := [None, None, None]\<rparr>)
     (Vector2 (Fin 0) (Fin 0)) (Vector2 (Fin 1) (Fin 0)) = Inr example_body \<and>
   run_calls example_angle
     [CallUpdate (Vector2 (Fin 0.07) (Fin 0)) (Vector2 (Fin 1) (Fin 0)) (Fin 0.02), CallRender (Fin 0.5)]
     (example_body, []) = Inr (example_forward, strip_commands example_forward (Fin 0.5)) \<and>
   length (spine example_body) = 3 \<and> length (spinePrevious example_body) = 3 \<and>
   spacing example_body = Fin 0.14 \<and>
   length (spine example_forward) = 3 \<and> length (spinePrevious example_forward) = 3 \<and>
   spacing example_forward = Fin 0.14"
proof -
  have r: "run_calls example_angle
     [CallUpdate (Vector2 (Fin 0.07) (Fin 0)) (Vector2 (Fin 1) (Fin 0)) (Fin 0.02), CallRender (Fin 0.5)]
     (example_body, []) = Inr (example_forward, strip_commands example_forward (Fin 0.5))"
    using forward_update render_total [OF forward_initialized, of "[]" "Fin 0.5"]
    by simp
  from body_shape_is_fixed [OF example_constructed, of example_angle]
  obtain l n where L: "Fin 0.28 = Fin l" "n = nat (\<lceil>l / 0.14\<rceil> + 1)"
    and R: "\<forall>head direction. \<exists>b0.
      initializeSpine (example_body\<lparr>spine := [None, None, None], spinePrevious := [None, None, None]\<rparr>)
        head direction = Inr b0 \<and> initialized b0 \<and>
      length (spine b0) = n \<and> length (spinePrevious b0) = n \<and>
      spacing b0 = spacing (example_body\<lparr>spine := [None, None, None], spinePrevious := [None, None, None]\<rparr>) \<and>
      (\<forall>calls r. \<exists>b' r'.
         run_calls example_angle calls (b0, r) = Inr (b', r') \<and>
         length (spine b') = n \<and> length (spinePrevious b') = n \<and>
         spacing b' = spacing (example_body\<lparr>spine := [None, None, None], spinePrevious := [None, None, None]\<rparr>))"
    by blast
  have l: "l = 0.28" using L(1) by simp
  have n3: "n = 3" unfolding L(2) l by simp
  have sp: "spacing (example_body\<lparr>spine := [None, None, None], spinePrevious := [None, None, None]\<rparr>)
      = Fin 0.14"
    by (simp add: example_body_def)
  from R obtain b0 where b0:
    "initializeSpine (example_body\<lparr>spine := [None, None, None], spinePrevious := [None, None, None]\<rparr>)
        (Vector2 (Fin 0) (Fin 0)) (Vector2 (Fin 1) (Fin 0)) = Inr b0"
    "length (spine b0) = n" "length (spinePrevious b0) = n"
    "spacing b0 = spacing (example_body\<lparr>spine := [None, None, None], spinePrevious := [None, None, None]\<rparr>)"
    "\<forall>calls r. \<exists>b' r'.
         run_calls example_angle calls (b0, r) = Inr (b', r') \<and>
         length (spine b') = n \<and> length (spinePrevious b') = n \<and>
         spacing b' = spacing (example_body\<lparr>spine := [None, None, None], spinePrevious := [None, None, None]\<rparr>)"
    by blast
  have e: "b0 = example_body" using b0(1) example_spine_initialized by simp
  from b0(5) obtain b' r' where b':
    "run_calls example_angle
       [CallUpdate (Vector2 (Fin 0.07) (Fin 0)) (Vector2 (Fin 1) (Fin 0)) (Fin 0.02), CallRender (Fin 0.5)]
       (b0, []) = Inr (b', r')"
    "length (spine b') = n" "length (spinePrevious b') = n"
    "spacing b' = spacing (example_body\<lparr>spine := [None, None, None], spinePrevious := [None, None, None]\<rparr>)"
    by blast
  have e': "b' = example_forward" using b'(1) r e by simp
  have v: "length (spine example_body) = 3" "length (spinePrevious example_body) = 3"
    "spacing example_body = Fin 0.14"
    "length (spine example_forward) = 3" "length (spinePrevious example_forward) = 3"
    "spacing example_forward = Fin 0.14"
    using b0(2,3,4) b'(2,3,4) e e' n3 sp by simp_all
  show ?thesis using example_constructed example_spine_initialized r v by blast
qed

end
